theory Spec2Isabelle
  imports Complex_Main
begin

section \<open>Numbers\<close>

text \<open>
  The compositing utilities compute with JavaScript numbers, which are IEEE 754 doubles.
  A number is modelled by the real number it stands for. \<open>to_double\<close> is the rounding
  of a real result to the nearest double, ties to the even significand (53 bits, the
  exponents of the normal and subnormal range; overflow to \<open>Infinity\<close> is left out).
  It is applied where the grid compositor turns inches into whole pixel counts: in the
  automatic \<open>maxCellWidth\<close>, in the products that pass through \<open>Math.round\<close> and in
  the sums and products that size the grid canvas. The strip compositor and the strip
  extraction multiply the dots per inch by 2, 4, 6 and 1.5, which is exact in doubles
  for a whole number of dots per inch (below \<open>2 ^ 50\<close>), and are written without it.
  The page size resolver, which only compares distances to five standard sizes, and the
  placement of a photo inside its cell, which is not rounded to pixels, are modelled
  with exact arithmetic. So is the search for the uniform cell size, which divides and
  multiplies \<open>maxCellWidth\<close> by aspect ratios: for a \<open>maxCellWidth\<close> that is not
  negative the result is \<open>maxCellWidth\<close> itself, exactly as in doubles.

  \<open>NaN\<close> arises in the source only from reading a field of a value that has none (see
  \<open>InheritedMember\<close> below); that path is written out as a branch of its own.

  \<open>Math.round\<close> rounds to the nearest integer, a half towards plus infinity.
\<close>

definition math_round :: "real \<Rightarrow> int" where
  "math_round x = \<lfloor>x + 1 / 2\<rfloor>"

definition round_half_even :: "real \<Rightarrow> int" where
  "round_half_even y =
    (let f = \<lfloor>y\<rfloor>; d = y - of_int f
     in if d < 1 / 2 then f else if 1 / 2 < d then f + 1 else if even f then f else f + 1)"

definition to_double :: "real \<Rightarrow> real" where
  "to_double x =
    (if x = 0 then 0
     else let e = max \<lfloor>log 2 \<bar>x\<bar>\<rfloor> (- 1022); u = 2 powi (e - 52)
          in of_int (round_half_even (x / u)) * u)"

section \<open>Page size from a grid: \<open>getPageSizeFromGrid\<close>\<close>

text \<open>
  A grid descriptor \<open>{ id, cols, rows, isStripGrid }\<close>; a field that is absent
  (\<open>undefined\<close>) is \<open>None\<close>. An absent \<open>isStripGrid\<close> is falsy.
\<close>

record grid =
  gid :: "string option"
  cols :: "real option"
  rows :: "real option"
  isStripGrid :: bool

text \<open>
  The argument of \<open>getPageSizeFromGrid\<close>: \<open>null\<close>/\<open>undefined\<close>, a string (the old
  format: a grid id) or a grid object.
\<close>

datatype grid_arg = GNull | GString string | GObject grid

record page_size_config =
  widthInches :: real
  heightInches :: real
  pageSize :: string

text \<open>
  \<open>gridToPageSize\<close> is an object literal indexed as \<open>gridToPageSize[gridId]\<close>. The
  index finds the literal's own eight keys and, as for every plain object, the members
  inherited from \<open>Object.prototype\<close>, all of which are truthy (functions, and the
  prototype object itself for \<open>__proto__\<close>).
\<close>

definition page_4x6 :: page_size_config where
  "page_4x6 = \<lparr>widthInches = 4, heightInches = 6, pageSize = ''4x6''\<rparr>"

definition gridToPageSize :: "(string \<times> page_size_config) list" where
  "gridToPageSize =
    [(''4x6-single'', page_4x6),
     (''4x6-2cut'', page_4x6),
     (''4x6-4cut'', page_4x6),
     (''4x6-6cut'', page_4x6),
     (''strip-grid'', page_4x6),
     (''5x5-single'', page_4x6),
     (''2x4-vertical-2'', page_4x6),
     (''5x7-6cut'', page_4x6)]"

definition object_prototype_members :: "string list" where
  "object_prototype_members =
    [''constructor'', ''__defineGetter__'', ''__defineSetter__'', ''hasOwnProperty'',
     ''__lookupGetter__'', ''__lookupSetter__'', ''isPrototypeOf'',
     ''propertyIsEnumerable'', ''toString'', ''valueOf'', ''__proto__'',
     ''toLocaleString'']"

text \<open>
  What \<open>getPageSizeFromGrid\<close> returns: a page size configuration, or (when the index
  found an inherited member) that member, which has none of the three fields.
\<close>

datatype page_result = PageSize page_size_config | InheritedMember string

definition catalog_index :: "string option \<Rightarrow> page_result option" where
  "catalog_index gridId =
    (case gridId of
       None \<Rightarrow> None
     | Some k \<Rightarrow>
        (case map_of gridToPageSize k of
           Some p \<Rightarrow> Some (PageSize p)
         | None \<Rightarrow> if k \<in> set object_prototype_members then Some (InheritedMember k) else None))"

record standard_size =
  std_w :: real
  std_h :: real
  std_name :: string

definition standardSizes :: "standard_size list" where
  "standardSizes =
    [\<lparr>std_w = 2, std_h = 4, std_name = ''2x4''\<rparr>,
     \<lparr>std_w = 4, std_h = 6, std_name = ''4x6''\<rparr>,
     \<lparr>std_w = 5, std_h = 7, std_name = ''5x7''\<rparr>,
     \<lparr>std_w = 8, std_h = 10, std_name = ''8x10''\<rparr>]"

text \<open>The Manhattan distance of the derived size to a standard size.\<close>

definition size_diff :: "real \<Rightarrow> real \<Rightarrow> standard_size \<Rightarrow> real" where
  "size_diff wIn hIn s = \<bar>wIn - std_w s\<bar> + \<bar>hIn - std_h s\<bar>"

text \<open>
  One round of the \<open>forEach\<close> over \<open>standardSizes\<close>; the state is
  \<open>(closest, minDiff)\<close>.
\<close>

definition closest_step ::
  "real \<Rightarrow> real \<Rightarrow> standard_size \<times> real \<Rightarrow> standard_size \<Rightarrow> standard_size \<times> real" where
  "closest_step wIn hIn st s =
    (let diff = size_diff wIn hIn s in if diff < snd st then (s, diff) else st)"

definition find_closest :: "real \<Rightarrow> real \<Rightarrow> standard_size" where
  "find_closest wIn hIn =
    (let closest = hd standardSizes;
         minDiff = size_diff wIn hIn closest
     in fst (foldl (closest_step wIn hIn) (closest, minDiff) standardSizes))"

text \<open>\<open>x || 1\<close> on an optional number: an absent or zero value gives 1.\<close>

definition or_one :: "real option \<Rightarrow> real" where
  "or_one v = (case v of None \<Rightarrow> 1 | Some x \<Rightarrow> if x = 0 then 1 else x)"

text \<open>
  The part of \<open>getPageSizeFromGrid\<close> after the catalog lookup found nothing; \<open>c\<close> and
  \<open>r\<close> are \<open>grid.cols\<close> and \<open>grid.rows\<close> as read from the argument. First the size
  \<open>(widthInches, heightInches)\<close> derived from the dimensions, then the standard size
  nearest to it.
\<close>

definition derived_size :: "real option \<Rightarrow> real option \<Rightarrow> real \<times> real" where
  "derived_size c r =
    (let cols' = or_one c;
         rows' = or_one r;
         cellWidth = 2;
         cellHeight = 3;
         margin = 1 / 10
     in ((cellWidth * cols') + (margin * (cols' - 1)),
         (cellHeight * rows') + (margin * (rows' - 1))))"

definition snap_to_standard :: "real \<times> real \<Rightarrow> page_size_config" where
  "snap_to_standard wh =
    (let closest = find_closest (fst wh) (snd wh)
     in \<lparr>widthInches = std_w closest, heightInches = std_h closest, pageSize = std_name closest\<rparr>)"

definition size_from_dimensions :: "real option \<Rightarrow> real option \<Rightarrow> page_size_config" where
  "size_from_dimensions c r = snap_to_standard (derived_size c r)"

text \<open>
  \<open>!grid\<close> holds of \<open>null\<close>, \<open>undefined\<close> and the empty string. A string has no
  \<open>cols\<close> or \<open>rows\<close>: both reads give \<open>undefined\<close>.
\<close>

definition getPageSizeFromGrid :: "grid_arg \<Rightarrow> page_result" where
  "getPageSizeFromGrid g =
    (case g of
       GNull \<Rightarrow> PageSize page_4x6
     | GString s \<Rightarrow>
        if s = [] then PageSize page_4x6
        else (case catalog_index (Some s) of
                Some found \<Rightarrow> found
              | None \<Rightarrow> PageSize (size_from_dimensions None None))
     | GObject gr \<Rightarrow>
        (case catalog_index (gid gr) of
           Some found \<Rightarrow> found
         | None \<Rightarrow> PageSize (size_from_dimensions (cols gr) (rows gr))))"

section \<open>Images, canvases and drawing\<close>

text \<open>
  The browser objects the utilities work with. They are not code of this repository; the
  model below follows the HTML canvas interface as far as the utilities use it.

  A decoded image (\<open>Image\<close> after \<open>onload\<close>) has its natural \<open>width\<close> and
  \<open>height\<close> and its pixels. The utilities divide by \<open>img.height\<close>; the model is the
  one of images with a positive height (JavaScript gives \<open>Infinity\<close> or \<open>NaN\<close> for a
  zero height, real division gives 0).
\<close>

datatype colour = RGBA nat nat nat nat

definition white :: colour where
  "white = RGBA 255 255 255 255"

definition transparent_black :: colour where
  "transparent_black = RGBA 0 0 0 0"

fun alpha :: "colour \<Rightarrow> nat" where
  "alpha (RGBA r g b a) = a"

type_synonym bitmap = "int \<Rightarrow> int \<Rightarrow> colour"

record image =
  width :: nat
  height :: nat
  pixels :: bitmap

text \<open>
  A canvas is the size it was given and the drawing calls made on its 2D context, in the
  order they were made. The three calls the utilities make: \<open>fillRect(x, y, w, h)\<close>
  with the current \<open>fillStyle\<close>; \<open>drawImage(img, sx, sy, sw, sh, dx, dy, dw, dh)\<close> of
  a decoded image; \<open>drawImage(canvas, dx, dy)\<close> of another canvas. The size is the value
  the code assigns to \<open>canvas.width\<close> and \<open>canvas.height\<close> (a browser keeps it as it
  is when it is an integer from 0 to 2147483647).
\<close>

datatype draw_op =
    FillRect colour real real real real
  | DrawImage image real real real real real real real real
  | DrawCanvas canvas int int
and canvas =
    Canvas (canvas_width: real) (canvas_height: real) (canvas_ops: "draw_op list")

text \<open>
  The pixels of a canvas. Compositing is source-over: an opaque source pixel replaces
  the pixel under it, and so does any source pixel over a fully transparent one; a fully
  transparent source pixel leaves it; what two partly transparent pixels give is the
  browser's, the parameter \<open>B\<close>. So is the resampling of an image drawn at another size
  or off the pixel grid, the parameter \<open>R\<close>. An image or canvas drawn at its own size
  on the pixel grid is copied pixel by pixel.
\<close>

definition source_over :: "(colour \<Rightarrow> colour \<Rightarrow> colour) \<Rightarrow> colour \<Rightarrow> colour \<Rightarrow> colour" where
  "source_over B s d =
    (if alpha s = 255 \<or> alpha d = 0 then s else if alpha s = 0 then d else B s d)"

definition is_int :: "real \<Rightarrow> bool" where
  "is_int v = (of_int \<lfloor>v\<rfloor> = v)"

type_synonym rect = "real \<times> real \<times> real \<times> real"

type_synonym resampler = "image \<Rightarrow> rect \<Rightarrow> rect \<Rightarrow> bitmap \<Rightarrow> bitmap"

fun paint :: "resampler \<Rightarrow> (colour \<Rightarrow> colour \<Rightarrow> colour) \<Rightarrow> draw_op \<Rightarrow> bitmap \<Rightarrow> bitmap"
  and bitmap_of :: "resampler \<Rightarrow> (colour \<Rightarrow> colour \<Rightarrow> colour) \<Rightarrow> canvas \<Rightarrow> bitmap" where
  "paint R B (FillRect c x y w h) bm =
    (\<lambda>px py.
      if x \<le> of_int px \<and> of_int px + 1 \<le> x + w \<and> y \<le> of_int py \<and> of_int py + 1 \<le> y + h
      then source_over B c (bm px py)
      else if of_int px + 1 \<le> x \<or> x + w \<le> of_int px \<or> of_int py + 1 \<le> y \<or> y + h \<le> of_int py
      then bm px py
      else B c (bm px py))"
| "paint R B (DrawImage img sx sy sw sh dx dy dw dh) bm =
    (if sw = dw \<and> sh = dh \<and> is_int sx \<and> is_int sy \<and> is_int sw \<and> is_int sh
        \<and> is_int dx \<and> is_int dy
     then (\<lambda>px py.
        let qx = px - \<lfloor>dx\<rfloor> + \<lfloor>sx\<rfloor>; qy = py - \<lfloor>dy\<rfloor> + \<lfloor>sy\<rfloor>
        in if \<lfloor>dx\<rfloor> \<le> px \<and> px < \<lfloor>dx\<rfloor> + \<lfloor>dw\<rfloor> \<and> \<lfloor>dy\<rfloor> \<le> py \<and> py < \<lfloor>dy\<rfloor> + \<lfloor>dh\<rfloor>
              \<and> 0 \<le> qx \<and> qx < int (width img) \<and> 0 \<le> qy \<and> qy < int (height img)
           then source_over B (pixels img qx qy) (bm px py)
           else bm px py)
     else R img (sx, sy, sw, sh) (dx, dy, dw, dh) bm)"
| "paint R B (DrawCanvas c dx dy) bm =
    (\<lambda>px py.
      if 0 \<le> px - dx \<and> of_int (px - dx) < canvas_width c
          \<and> 0 \<le> py - dy \<and> of_int (py - dy) < canvas_height c
      then source_over B (bitmap_of R B c (px - dx) (py - dy)) (bm px py)
      else bm px py)"
| "bitmap_of R B (Canvas w h ops) =
    (\<lambda>px py.
      if 0 \<le> px \<and> of_int px < w \<and> 0 \<le> py \<and> of_int py < h
      then foldl (\<lambda>bm op. paint R B op bm) (\<lambda>_ _. transparent_black) ops px py
      else transparent_black)"

section \<open>Errors and image loading\<close>

text \<open>
  The utilities throw \<open>Error\<close> objects with the messages below (a template literal's
  holes are the constructor's arguments), and pass on what an \<open>Image\<close> reports through
  \<open>onerror\<close> when a source cannot be decoded.

  \<^item> \<open>NoPhotosProvided\<close>: \<open>'No photos provided'\<close>
  \<^item> \<open>InvalidGridConfiguration\<close>: \<open>'Invalid grid configuration'\<close>
  \<^item> \<open>StripGridRequires4Photos\<close>: \<open>'Strip grid requires exactly 4 photos'\<close>
  \<^item> \<open>StripGridRequires4PhotosGot n\<close>: \<open>`Strip grid requires exactly 4 photos, got ${n}`\<close>
  \<^item> \<open>ExpectedPhotosGot t n\<close>: \<open>`Expected ${t} photos, got ${n}`\<close>
  \<^item> \<open>FailedToLoadCompositeImage\<close>: \<open>'Failed to load composite image'\<close>
\<close>

datatype message =
    NoPhotosProvided
  | InvalidGridConfiguration
  | StripGridRequires4Photos
  | StripGridRequires4PhotosGot nat
  | ExpectedPhotosGot real nat
  | FailedToLoadCompositeImage

datatype error = Error message | ImageErrorEvent

text \<open>
  What a call leaves behind: the image sources whose loading it started, in order, and
  the promise's outcome, a rejection (\<open>Inl\<close>) or the canvas that is then encoded as a
  JPEG data URL (\<open>Inr\<close>).
\<close>

record outcome =
  started_loads :: "string list"
  settled :: "error + canvas"

text \<open>
  \<open>Promise.all\<close> over one load per photo: the images in the order of the photos when
  every load succeeds, the rejection of a failed load otherwise. \<open>decode\<close> is the
  browser's decoder: \<open>None\<close> when the source cannot be decoded.
\<close>

fun loadAll :: "(string \<Rightarrow> image option) \<Rightarrow> string list \<Rightarrow> error + image list" where
  "loadAll decode [] = Inr []"
| "loadAll decode (photoSrc # rest) =
    (case decode photoSrc of
       None \<Rightarrow> Inl ImageErrorEvent
     | Some img \<Rightarrow>
        (case loadAll decode rest of
           Inl e \<Rightarrow> Inl e
         | Inr images \<Rightarrow> Inr (img # images)))"

section \<open>The strip compositor: \<open>createStripGridComposite\<close>\<close>

record placement =
  drawX :: real
  drawY :: real
  drawWidth :: real
  drawHeight :: real

text \<open>The body of the \<open>images.forEach\<close> of the strip: where photo \<open>index\<close> is drawn.\<close>

definition strip_placement :: "image \<Rightarrow> nat \<Rightarrow> int \<Rightarrow> int \<Rightarrow> placement" where
  "strip_placement img index cellWidthPx cellHeightPx =
    (let cellY = real index * of_int cellHeightPx;
         imgAspect = real (width img) / real (height img);
         cellAspect = of_int cellWidthPx / of_int cellHeightPx
     in if imgAspect > cellAspect
        then \<lparr>drawX = 0,
              drawY = cellY + (of_int cellHeightPx - of_int cellWidthPx / imgAspect) / 2,
              drawWidth = of_int cellWidthPx,
              drawHeight = of_int cellWidthPx / imgAspect\<rparr>
        else \<lparr>drawX = (of_int cellWidthPx - of_int cellHeightPx * imgAspect) / 2,
              drawY = cellY,
              drawWidth = of_int cellHeightPx * imgAspect,
              drawHeight = of_int cellHeightPx\<rparr>)"

definition draw_placed :: "image \<Rightarrow> placement \<Rightarrow> draw_op" where
  "draw_placed img p =
    DrawImage img 0 0 (real (width img)) (real (height img))
      (drawX p) (drawY p) (drawWidth p) (drawHeight p)"

text \<open>The 2 by 6 inch strip canvas: white, then the photos in index order.\<close>

definition stripCanvas :: "image list \<Rightarrow> real \<Rightarrow> canvas" where
  "stripCanvas images dpi =
    (let stripWidthInches = 2;
         stripHeightInches = 6;
         stripWidthPx = math_round (stripWidthInches * dpi);
         stripHeightPx = math_round (stripHeightInches * dpi);
         cellHeightInches = stripHeightInches / 4;
         cellWidthPx = stripWidthPx;
         cellHeightPx = math_round (cellHeightInches * dpi)
     in Canvas (of_int stripWidthPx) (of_int stripHeightPx)
          (FillRect white 0 0 (of_int stripWidthPx) (of_int stripHeightPx)
           # map (\<lambda>(index, img). draw_placed img (strip_placement img index cellWidthPx cellHeightPx))
               (List.enumerate 0 images)))"

definition createStripGridComposite ::
  "(string \<Rightarrow> image option) \<Rightarrow> string list option \<Rightarrow> real \<Rightarrow> outcome" where
  "createStripGridComposite decode photos dpi =
    (case photos of
       None \<Rightarrow> \<lparr>started_loads = [], settled = Inl (Error StripGridRequires4Photos)\<rparr>
     | Some ps \<Rightarrow>
        if length ps \<noteq> 4
        then \<lparr>started_loads = [], settled = Inl (Error StripGridRequires4Photos)\<rparr>
        else
          (let stripWidthPx = math_round (2 * dpi);
               canvasWidthPx = math_round (4 * dpi);
               canvasHeightPx = math_round (6 * dpi)
           in \<lparr>started_loads = ps,
               settled =
                 (case loadAll decode ps of
                    Inl e \<Rightarrow> Inl e
                  | Inr images \<Rightarrow>
                     (let strip = stripCanvas images dpi
                      in Inr (Canvas (of_int canvasWidthPx) (of_int canvasHeightPx)
                           [FillRect white 0 0 (of_int canvasWidthPx) (of_int canvasHeightPx),
                            DrawCanvas strip 0 0,
                            DrawCanvas strip stripWidthPx 0])))\<rparr>))"

section \<open>The grid compositor: \<open>createGridComposite\<close>\<close>

text \<open>
  The remainder \<open>a % b\<close> of JavaScript (the sign of the dividend) for a non-zero
  \<open>b\<close>.
\<close>

definition js_rem :: "real \<Rightarrow> real \<Rightarrow> real" where
  "js_rem a b =
    (let q = a / b; t = (if 0 \<le> q then \<lfloor>q\<rfloor> else \<lceil>q\<rceil>) in a - b * of_int t)"

record cell_dims =
  aspect :: real
  minWidth :: real
  minHeight :: real

text \<open>
  The \<open>Map\<close> \<open>cellDimensions\<close>, in insertion order. Its key \<open>`${col}-${row}`\<close> is
  the pair \<open>(col, row)\<close>.
\<close>

type_synonym cell_map = "((real \<times> real) \<times> cell_dims) list"

definition cellDimensions_step :: "real \<Rightarrow> real \<Rightarrow> cell_map \<Rightarrow> nat \<times> image \<Rightarrow> cell_map" where
  "cellDimensions_step gridRows maxCellWidth m ii =
    (let index = fst ii;
         img = snd ii;
         row = js_rem (real index) gridRows;
         col = of_int \<lfloor>real index / gridRows\<rfloor>;
         cellKey = (col, row);
         imgAspect = real (width img) / real (height img)
     in case map_of m cellKey of
          None \<Rightarrow>
            m @ [(cellKey,
                  \<lparr>aspect = imgAspect,
                   minWidth = (if imgAspect > 1 then maxCellWidth else maxCellWidth / imgAspect),
                   minHeight = (if imgAspect > 1 then maxCellWidth / imgAspect else maxCellWidth)\<rparr>)]
        | Some current \<Rightarrow>
            map (\<lambda>(k, v). if k = cellKey then (k, v\<lparr>aspect := max (aspect v) imgAspect\<rparr>) else (k, v)) m)"

text \<open>
  The second \<open>forEach\<close>: the state is \<open>(maxCellHeightInches, maxCellWidthInches)\<close>.
\<close>

definition cell_size_step :: "real \<Rightarrow> real \<times> real \<Rightarrow> cell_dims \<Rightarrow> real \<times> real" where
  "cell_size_step maxCellWidth st dims =
    (if aspect dims > 1
     then (max (fst st) (maxCellWidth / aspect dims), snd st)
     else (fst st, max (snd st) (maxCellWidth * aspect dims)))"

definition cell_size_inches :: "image list \<Rightarrow> real \<Rightarrow> real \<Rightarrow> real \<times> real" where
  "cell_size_inches images gridRows maxCellWidth =
    (let cellDimensions =
           foldl (cellDimensions_step gridRows maxCellWidth) [] (List.enumerate 0 images)
     in foldl (cell_size_step maxCellWidth) (maxCellWidth, maxCellWidth) (map snd cellDimensions))"

text \<open>The body of the drawing \<open>images.forEach\<close>: where photo \<open>index\<close> is drawn.\<close>

definition grid_placement :: "image \<Rightarrow> nat \<Rightarrow> real \<Rightarrow> int \<Rightarrow> int \<Rightarrow> int \<Rightarrow> placement" where
  "grid_placement img index gridRows cellWidthPx cellHeightPx marginSize =
    (let row = js_rem (real index) gridRows;
         col = of_int \<lfloor>real index / gridRows\<rfloor>;
         cellX = of_int marginSize + col * (of_int cellWidthPx + of_int marginSize);
         cellY = of_int marginSize + row * (of_int cellHeightPx + of_int marginSize);
         imgAspect = real (width img) / real (height img);
         cellAspect = of_int cellWidthPx / of_int cellHeightPx
     in if imgAspect > cellAspect
        then \<lparr>drawX = cellX,
              drawY = cellY + (of_int cellHeightPx - of_int cellWidthPx / imgAspect) / 2,
              drawWidth = of_int cellWidthPx,
              drawHeight = of_int cellWidthPx / imgAspect\<rparr>
        else \<lparr>drawX = cellX + (of_int cellWidthPx - of_int cellHeightPx * imgAspect) / 2,
              drawY = cellY,
              drawWidth = of_int cellHeightPx * imgAspect,
              drawHeight = of_int cellHeightPx\<rparr>)"

text \<open>
  The uniform cell size in pixels \<open>(cellWidthPx, cellHeightPx)\<close> and the margin
  \<open>marginSize\<close>, for a \<open>maxCellWidth\<close> that is a number. The cell size in inches is
  multiplied by \<open>dpi\<close> in doubles and then rounded.
\<close>

definition cell_size_px :: "image list \<Rightarrow> real \<Rightarrow> real \<Rightarrow> real \<Rightarrow> int \<times> int" where
  "cell_size_px images gridRows dpi maxCellWidth =
    (let sz = cell_size_inches images gridRows maxCellWidth;
         maxCellHeightInches = fst sz;
         maxCellWidthInches = snd sz
     in (math_round (to_double (maxCellWidthInches * dpi)),
         math_round (to_double (maxCellHeightInches * dpi))))"

definition margin_px :: "int \<times> int \<Rightarrow> real \<Rightarrow> int" where
  "margin_px px marginPercent =
    math_round (to_double (of_int (min (fst px) (snd px)) * to_double (marginPercent / 100)))"

text \<open>The canvas of the general path, from the loaded images on.\<close>

definition gridCanvas :: "image list \<Rightarrow> real \<Rightarrow> real \<Rightarrow> real \<Rightarrow> real \<Rightarrow> real \<Rightarrow> canvas" where
  "gridCanvas images gridCols gridRows dpi marginPercent maxCellWidth =
    (let px = cell_size_px images gridRows dpi maxCellWidth;
         cellWidthPx = fst px;
         cellHeightPx = snd px;
         marginSize = margin_px px marginPercent;
         canvasWidth =
           to_double (of_int marginSize
             + to_double (to_double (of_int cellWidthPx + of_int marginSize) * gridCols));
         canvasHeight =
           to_double (of_int marginSize
             + to_double (to_double (of_int cellHeightPx + of_int marginSize) * gridRows))
     in Canvas canvasWidth canvasHeight
          (FillRect white 0 0 canvasWidth canvasHeight
           # map (\<lambda>(index, img).
                    draw_placed img (grid_placement img index gridRows cellWidthPx cellHeightPx marginSize))
               (List.enumerate 0 images)))"

text \<open>
  The automatic \<open>maxCellWidth\<close>, computed in doubles (\<open>0.1\<close> is the double nearest to
  one tenth). When \<open>getPageSizeFromGrid\<close> returned an inherited member,
  \<open>pageConfig.widthInches\<close> is \<open>undefined\<close> and the result is \<open>NaN\<close>, here \<open>None\<close>.
\<close>

definition auto_maxCellWidth :: "grid \<Rightarrow> real \<Rightarrow> real \<Rightarrow> real option" where
  "auto_maxCellWidth gr gridCols gridRows =
    (case getPageSizeFromGrid (GObject gr) of
       InheritedMember k \<Rightarrow> None
     | PageSize pageConfig \<Rightarrow>
        (let marginInches = to_double (1 / 10);
             availableWidth =
               to_double (widthInches pageConfig
                 - to_double (marginInches * to_double (gridCols - 1)));
             availableHeight =
               to_double (heightInches pageConfig
                 - to_double (marginInches * to_double (gridRows - 1)))
         in Some (min (to_double (availableWidth / gridCols))
                      (to_double (availableHeight / gridRows)))))"

text \<open>
  \<open>maxCellWidth\<close> after the \<open>if (maxCellWidth === null)\<close>: the caller's value, or
  the automatic one.
\<close>

definition resolve_maxCellWidth :: "grid \<Rightarrow> real \<Rightarrow> real \<Rightarrow> real option \<Rightarrow> real option" where
  "resolve_maxCellWidth gr gridCols gridRows maxCellWidth =
    (case maxCellWidth of
       Some m \<Rightarrow> Some m
     | None \<Rightarrow> auto_maxCellWidth gr gridCols gridRows)"

text \<open>
  \<open>!x\<close> on an optional number. With a \<open>NaN\<close> \<open>maxCellWidth\<close> every size computed
  from it is \<open>NaN\<close>: the canvas gets width and height 0, and the drawing calls, whose
  arguments are not finite, draw nothing.
\<close>

definition falsy :: "real option \<Rightarrow> bool" where
  "falsy v = (v = None \<or> v = Some 0)"

definition createGridComposite ::
  "(string \<Rightarrow> image option) \<Rightarrow> string list option \<Rightarrow> grid option \<Rightarrow> real \<Rightarrow> real \<Rightarrow> real option
    \<Rightarrow> outcome" where
  "createGridComposite decode photos grd dpi marginPercent maxCellWidth =
    (case photos of
       None \<Rightarrow> \<lparr>started_loads = [], settled = Inl (Error NoPhotosProvided)\<rparr>
     | Some ps \<Rightarrow>
        if length ps = 0
        then \<lparr>started_loads = [], settled = Inl (Error NoPhotosProvided)\<rparr>
        else
          (case grd of
             None \<Rightarrow> \<lparr>started_loads = [], settled = Inl (Error InvalidGridConfiguration)\<rparr>
           | Some gr \<Rightarrow>
              if falsy (cols gr) \<or> falsy (rows gr)
              then \<lparr>started_loads = [], settled = Inl (Error InvalidGridConfiguration)\<rparr>
              else if gid gr = Some ''strip-grid'' \<or> isStripGrid gr
              then
                (if length ps \<noteq> 4
                 then \<lparr>started_loads = [],
                       settled = Inl (Error (StripGridRequires4PhotosGot (length ps)))\<rparr>
                 else createStripGridComposite decode (Some ps) dpi)
              else
                (let gridCols = the (cols gr);
                     gridRows = the (rows gr);
                     totalCells = gridCols * gridRows
                 in if real (length ps) \<noteq> totalCells
                    then \<lparr>started_loads = [],
                          settled = Inl (Error (ExpectedPhotosGot totalCells (length ps)))\<rparr>
                    else
                      (let mcw = resolve_maxCellWidth gr gridCols gridRows maxCellWidth
                       in \<lparr>started_loads = ps,
                           settled =
                             (case loadAll decode ps of
                                Inl e \<Rightarrow> Inl e
                              | Inr images \<Rightarrow>
                                 (case mcw of
                                    None \<Rightarrow> Inr (Canvas 0 0 [])
                                  | Some m \<Rightarrow>
                                     Inr (gridCanvas images gridCols gridRows dpi marginPercent m)))\<rparr>))))"

section \<open>Strip extraction: \<open>extractStripFromComposite\<close>\<close>

definition extractStripFromComposite :: "(string \<Rightarrow> image option) \<Rightarrow> string \<Rightarrow> real \<Rightarrow> outcome" where
  "extractStripFromComposite decode compositeImageDataUrl dpi =
    (let stripWidthInches = 2;
         stripHeightInches = 6;
         stripWidthPx = math_round (stripWidthInches * dpi);
         stripHeightPx = math_round (stripHeightInches * dpi)
     in \<lparr>started_loads = [compositeImageDataUrl],
         settled =
           (case decode compositeImageDataUrl of
              None \<Rightarrow> Inl (Error FailedToLoadCompositeImage)
            | Some compositeImg \<Rightarrow>
               Inr (Canvas (of_int stripWidthPx) (of_int stripHeightPx)
                     [DrawImage compositeImg
                        0 0 (of_int stripWidthPx) (of_int stripHeightPx)
                        0 0 (of_int stripWidthPx) (of_int stripHeightPx)]))\<rparr>)"

section \<open>Error kinds and sample inputs\<close>

text \<open>
  The specification sorts the errors into two kinds. \<open>InvalidInput\<close>: the arguments
  are refused. \<open>DecodeFailure\<close>: an image source could not be decoded.
\<close>

fun decode_failure :: "error \<Rightarrow> bool" where
  "decode_failure ImageErrorEvent = True"
| "decode_failure (Error FailedToLoadCompositeImage) = True"
| "decode_failure (Error m) = False"

definition invalid_input :: "error \<Rightarrow> bool" where
  "invalid_input e = (\<not> decode_failure e)"

text \<open>The condition of the strip-grid branch of \<open>createGridComposite\<close>.\<close>

definition strip_routed :: "grid \<Rightarrow> bool" where
  "strip_routed gr = (gid gr = Some ''strip-grid'' \<or> isStripGrid gr)"

text \<open>
  The images a canvas was asked to draw, in the order of the \<open>drawImage\<close> calls.
\<close>

fun drawn_image :: "draw_op \<Rightarrow> image option" where
  "drawn_image (DrawImage img sx sy sw sh dx dy dw dh) = Some img"
| "drawn_image (FillRect c x y w h) = None"
| "drawn_image (DrawCanvas c dx dy) = None"

definition drawn_images :: "canvas \<Rightarrow> image list" where
  "drawn_images cv = List.map_filter drawn_image (canvas_ops cv)"

text \<open>Inputs for evaluating the functions: an image of one colour, and simple browsers.\<close>

definition solid_image :: "nat \<Rightarrow> nat \<Rightarrow> colour \<Rightarrow> image" where
  "solid_image w h c = \<lparr>width = w, height = h, pixels = (\<lambda>x y. c)\<rparr>"

definition decode_any :: "image \<Rightarrow> string \<Rightarrow> image option" where
  "decode_any img src = (if src = [] then None else Some img)"

definition no_resampling :: resampler where
  "no_resampling img s d bm = bm"

definition blend_source :: "colour \<Rightarrow> colour \<Rightarrow> colour" where
  "blend_source s d = s"

definition photo_800x600 :: image where
  "photo_800x600 = solid_image 800 600 white"

definition photo_1000x100 :: image where
  "photo_1000x100 = solid_image 1000 100 white"

definition photo_100x1000 :: image where
  "photo_100x1000 = solid_image 100 1000 white"

definition composite_1200x1800 :: image where
  "composite_1200x1800 =
    \<lparr>width = 1200, height = 1800, pixels = (\<lambda>x y. RGBA (nat x mod 256) (nat y mod 256) 0 255)\<rparr>"

definition grid_2x2 :: grid where
  "grid_2x2 = \<lparr>gid = Some ''4x6-4cut'', cols = Some 2, rows = Some 2, isStripGrid = False\<rparr>"

definition four_photos :: "string list" where
  "four_photos = [''p0'', ''p1'', ''p2'', ''p3'']"

definition grid_3x4 :: grid where
  "grid_3x4 = \<lparr>gid = Some ''custom'', cols = Some 3, rows = Some 4, isStripGrid = False\<rparr>"

definition twelve_photos :: "string list" where
  "twelve_photos =
    [''p0'', ''p1'', ''p2'', ''p3'', ''p4'', ''p5'', ''p6'', ''p7'', ''p8'', ''p9'', ''p10'', ''p11'']"

section \<open>Rounding to doubles\<close>

lemma floor_log2_eq:
  assumes "2 powi e \<le> a" "a < 2 powi (e + 1)"
  shows "\<lfloor>log 2 a\<rfloor> = e"
proof -
  have "(0::real) < 2 powi e" by simp
  then have pos: "0 < a" using assms(1) by linarith
  have "real_of_int e \<le> log 2 a"
    using assms(1) pos by (simp add: le_log_iff powr_real_of_int')
  moreover have "log 2 a < real_of_int (e + 1)"
    using assms(2) pos by (simp add: log_less_iff powr_real_of_int' del: of_int_add)
  ultimately show ?thesis by (simp add: floor_eq_iff)
qed

text \<open>
  The double nearest to \<open>x\<close>, for \<open>x\<close> between two powers of 2 that follow each other:
  the nearest multiple of the spacing \<open>2 powi (e - 52)\<close>.
\<close>

lemma to_double_eval:
  assumes "2 powi e \<le> \<bar>x\<bar>" "\<bar>x\<bar> < 2 powi (e + 1)" "- 1022 \<le> e"
    and "of_int (round_half_even (x / 2 powi (e - 52))) * 2 powi (e - 52) = y"
  shows "to_double x = y"
proof -
  have "(0::real) < 2 powi e" by simp
  then have "0 < \<bar>x\<bar>" using assms(1) by linarith
  then have "x \<noteq> 0" by simp
  moreover have "\<lfloor>log 2 \<bar>x\<bar>\<rfloor> = e" by (rule floor_log2_eq[OF assms(1,2)])
  ultimately show ?thesis using assms(3,4) by (simp add: to_double_def Let_def max_def)
qed

lemma round_half_even_of_int: "round_half_even (of_int n) = n"
  by (simp add: round_half_even_def)

text \<open>A whole number below \<open>2 ^ 53\<close> in size is a double.\<close>

lemma to_double_of_int:
  assumes "\<bar>k\<bar> < 2 ^ 53"
  shows "to_double (of_int k) = of_int k"
proof (cases "k = 0")
  case True
  then show ?thesis by (simp add: to_double_def)
next
  case False
  define a where "a = \<bar>real_of_int k\<bar>"
  define e where "e = \<lfloor>log 2 a\<rfloor>"
  have a1: "1 \<le> a" using False by (simp add: a_def)
  have a53: "a < 2 ^ 53"
  proof -
    have "real_of_int \<bar>k\<bar> < real_of_int (2 ^ 53)" using assms by (simp only: of_int_less_iff)
    then show ?thesis by (simp add: a_def)
  qed
  have "0 \<le> log 2 a" using a1 by simp
  then have e0: "0 \<le> e" by (simp add: e_def)
  have "log 2 a < 53"
    using a1 a53 by (simp add: log_less_iff powr_realpow[symmetric])
  then have e52: "e \<le> 52" unfolding e_def by (simp add: floor_le_iff)
  have u: "(2::real) powi (e - 52) = 1 / 2 ^ nat (52 - e)"
    using e52 by (simp add: power_int_def field_simps)
  have "real_of_int k / 2 powi (e - 52) = of_int (k * 2 ^ nat (52 - e))"
    by (simp add: u)
  then have "round_half_even (real_of_int k / 2 powi (e - 52)) = k * 2 ^ nat (52 - e)"
    by (simp only: round_half_even_of_int)
  then have "of_int (round_half_even (real_of_int k / 2 powi (e - 52))) * 2 powi (e - 52) = real_of_int k"
    by (simp add: u)
  then show ?thesis
    using False e0 by (simp add: to_double_def Let_def max_def a_def[symmetric] e_def[symmetric])
qed

lemma to_double_numeral:
  "(numeral n :: int) < 2 ^ 53 \<Longrightarrow> to_double (numeral n) = numeral n"
  using to_double_of_int[of "numeral n"] by simp

lemma to_double_0: "to_double 0 = 0"
  by (simp add: to_double_def)

lemma to_double_1: "to_double 1 = 1"
  using to_double_of_int[of 1] by simp

lemma double_tenth: "to_double (1 / 10) = 3602879701896397 / 36028797018963968"
  by (rule to_double_eval[where e = "- 4"])
     (simp_all add: round_half_even_def power_int_minus Let_def)

section \<open>Properties of the page size resolver\<close>

lemma catalog_index_simps:
  "catalog_index None = None"
  "catalog_index (Some ''toString'') = Some (InheritedMember ''toString'')"
  "catalog_index (Some ''custom'') = None"
  "catalog_index (Some []) = None"
  "catalog_index (Some ''4x6-single'') = Some (PageSize page_4x6)"
  "catalog_index (Some ''4x6-4cut'') = Some (PageSize page_4x6)"
  by (simp_all add: catalog_index_def gridToPageSize_def object_prototype_members_def)

text \<open>Every entry of the catalog is the 4 by 6 inch page.\<close>

lemma catalog_all_4x6: "map_of gridToPageSize k = Some p \<Longrightarrow> p = page_4x6"
  by (auto simp: gridToPageSize_def split: if_splits)

text \<open>
  The loop over \<open>standardSizes\<close> keeps the first entry at the least distance: after
  the loop, \<open>minDiff\<close> is the distance of \<open>closest\<close>, no entry seen is nearer, and
  every entry before \<open>closest\<close> is strictly farther.
\<close>

lemma closest_fold:
  "foldl (closest_step w h) (c0, size_diff w h c0) xs = (c, d) \<Longrightarrow>
   d = size_diff w h c \<and> (\<forall>t\<in>set (c0 # xs). d \<le> size_diff w h t) \<and>
   (\<exists>pre post. c0 # xs = pre @ c # post \<and> (\<forall>t\<in>set pre. d < size_diff w h t))"
proof (induction xs arbitrary: c d rule: rev_induct)
  case Nil
  then have "c0 # [] = [] @ c # []" "d = size_diff w h c" by auto
  then show ?case by fastforce
next
  case (snoc x xs)
  obtain c1 d1 where st: "foldl (closest_step w h) (c0, size_diff w h c0) xs = (c1, d1)"
    by (cases "foldl (closest_step w h) (c0, size_diff w h c0) xs") auto
  from snoc.IH[OF st] obtain pre post where
    d1: "d1 = size_diff w h c1" and
    mn: "\<forall>t\<in>set (c0 # xs). d1 \<le> size_diff w h t" and
    dec: "c0 # xs = pre @ c1 # post" and
    fst: "\<forall>t\<in>set pre. d1 < size_diff w h t"
    by blast
  have step: "closest_step w h (c1, d1) x = (c, d)"
    using snoc.prems st by simp
  show ?case
  proof (cases "size_diff w h x < d1")
    case True
    with step have cd: "c = x" "d = size_diff w h x"
      by (auto simp: closest_step_def Let_def)
    have a: "c0 # xs @ [x] = (c0 # xs) @ c # []" using cd by simp
    have b: "\<forall>t\<in>set (c0 # xs). d < size_diff w h t"
      using mn True cd by fastforce
    have c: "\<forall>t\<in>set (c0 # xs @ [x]). d \<le> size_diff w h t"
      using b cd by fastforce
    from a b have "\<exists>pre post. c0 # xs @ [x] = pre @ c # post \<and> (\<forall>t\<in>set pre. d < size_diff w h t)"
      by blast
    with c cd show ?thesis by blast
  next
    case False
    with step have cd: "c = c1" "d = d1"
      by (auto simp: closest_step_def Let_def)
    have a: "c0 # xs @ [x] = pre @ c # (post @ [x])" using dec cd by simp
    have c: "\<forall>t\<in>set (c0 # xs @ [x]). d \<le> size_diff w h t"
      using mn cd False by fastforce
    from a fst cd have "\<exists>pre post. c0 # xs @ [x] = pre @ c # post \<and> (\<forall>t\<in>set pre. d < size_diff w h t)"
      by blast
    with c cd d1 show ?thesis by blast
  qed
qed

lemma hd_filter_decomp:
  assumes "ys = pre @ c # post" "P c" "\<forall>t\<in>set pre. \<not> P t"
  shows "hd (filter P ys) = c"
  using assms by (simp add: filter_empty_conv[THEN iffD2])

text \<open>
  \<open>find_closest\<close> is the first entry of \<open>standardSizes\<close> among those at the least
  Manhattan distance.
\<close>

lemma find_closest_first_min:
  "find_closest w h =
     hd (filter (\<lambda>s. \<forall>t\<in>set standardSizes. size_diff w h s \<le> size_diff w h t) standardSizes)"
proof -
  obtain s0 rest where ss: "standardSizes = s0 # rest"
    by (simp add: standardSizes_def)
  obtain c d where st: "foldl (closest_step w h) (s0, size_diff w h s0) standardSizes = (c, d)"
    by (cases "foldl (closest_step w h) (s0, size_diff w h s0) standardSizes") auto
  then have fc: "find_closest w h = c"
    by (simp add: find_closest_def ss Let_def)
  let ?P = "\<lambda>s. \<forall>t\<in>set standardSizes. size_diff w h s \<le> size_diff w h t"
  from closest_fold[OF st] obtain pre post where
    d: "d = size_diff w h c" and
    mn: "\<forall>t\<in>set (s0 # standardSizes). d \<le> size_diff w h t" and
    dec: "s0 # standardSizes = pre @ c # post" and
    fst: "\<forall>t\<in>set pre. d < size_diff w h t"
    by blast
  have Pc: "?P c" using mn d by simp
  have cin: "c \<in> set standardSizes" using dec ss
    by (metis list.set_intros(1) in_set_conv_decomp set_ConsD)
  have npre: "\<forall>t\<in>set pre. \<not> ?P t"
    using fst d cin by fastforce
  have "hd (filter ?P (s0 # standardSizes)) = c"
    by (rule hd_filter_decomp[OF dec Pc npre])
  moreover have "hd (filter ?P (s0 # standardSizes)) = hd (filter ?P standardSizes)"
    by (simp add: ss)
  ultimately show ?thesis using fc by simp
qed

lemma derived_size_one: "or_one c = 1 \<Longrightarrow> or_one r = 1 \<Longrightarrow> derived_size c r = (2, 3)"
  by (simp add: derived_size_def)

lemma snap_2x3:
  "snap_to_standard (2, 3) = \<lparr>widthInches = 2, heightInches = 4, pageSize = ''2x4''\<rparr>"
  by (simp add: snap_to_standard_def find_closest_def standardSizes_def closest_step_def
      Let_def size_diff_def)

text \<open>
  The resolver on every argument whose id names no member of the catalog object, own or
  inherited: the default for no grid, the cataloged page for a cataloged id, the nearest
  standard size otherwise.
\<close>

lemma getPageSizeFromGrid_cases:
  "getPageSizeFromGrid GNull = PageSize page_4x6"
  "getPageSizeFromGrid (GString []) = PageSize page_4x6"
  "map_of gridToPageSize k = Some p \<Longrightarrow> getPageSizeFromGrid (GObject (gr\<lparr>gid := Some k\<rparr>)) = PageSize page_4x6"
  "catalog_index (gid gr) = None \<Longrightarrow>
     getPageSizeFromGrid (GObject gr) = PageSize (snap_to_standard (derived_size (cols gr) (rows gr)))"
  by (auto simp: getPageSizeFromGrid_def catalog_index_def size_from_dimensions_def
      dest: catalog_all_4x6)

text \<open>
  Claim C6 (the resolver is total: the default for no grid, the cataloged page for a
  cataloged id, otherwise the standard size nearest to the derived one). The lemmas
  above prove this for every id that names no member of the catalog object. For an id
  that names a member the object literal inherits, the lookup \<open>gridToPageSize[gridId]\<close>
  finds that member and the function returns it: for the grid
  \<open>{ id: 'toString', cols: 1, rows: 1 }\<close>, whose id is not in the catalog, the result is
  not a page size.
\<close>

theorem getPageSizeFromGrid_inherited_member:
  "getPageSizeFromGrid
     (GObject \<lparr>gid = Some ''toString'', cols = Some 1, rows = Some 1, isStripGrid = False\<rparr>)
     = InheritedMember ''toString''
   \<and> map_of gridToPageSize ''toString'' = None"
  by (simp add: getPageSizeFromGrid_def catalog_index_def gridToPageSize_def
      object_prototype_members_def)

text \<open>
  Claim C10, as amended (the fallback replaces a missing or zero \<open>cols\<close> or \<open>rows\<close> by
  1 and never fails; a string id gives the 2x4 page). For a grid object whose id names
  no member of the catalog object, the result is the standard size nearest to the size
  derived from \<open>cols\<close> and \<open>rows\<close>, and that derived size is the one for 1 column
  when \<open>cols\<close> is absent or zero, and for 1 row when \<open>rows\<close> is absent or zero:
  \<open>x || 1\<close> is 1 for an absent and for a zero \<open>x\<close>. The
  size derived from 1 column and 1 row is 2 by 3 inches, and the standard size nearest
  to it is the 2x4 page. For every non-empty string that names no member of the catalog
  object, the derived size is 2 by 3 inches and the result is the 2x4 page.
\<close>

theorem fallback_replaces_missing_by_one:
  "(catalog_index (gid gr) = None \<longrightarrow>
      getPageSizeFromGrid (GObject gr)
        = PageSize (snap_to_standard (derived_size (cols gr) (rows gr)))
      \<and> (cols gr = None \<or> cols gr = Some 0 \<longrightarrow>
            derived_size (cols gr) (rows gr) = derived_size (Some 1) (rows gr))
      \<and> (rows gr = None \<or> rows gr = Some 0 \<longrightarrow>
            derived_size (cols gr) (rows gr) = derived_size (cols gr) (Some 1)))
   \<and> or_one None = 1 \<and> or_one (Some 0) = 1
   \<and> derived_size (Some 1) (Some 1) = (2, 3)
   \<and> snap_to_standard (2, 3) = \<lparr>widthInches = 2, heightInches = 4, pageSize = ''2x4''\<rparr>
   \<and> (s \<noteq> [] \<and> catalog_index (Some s) = None \<longrightarrow>
        getPageSizeFromGrid (GString s) = PageSize (snap_to_standard (derived_size None None))
        \<and> derived_size None None = (2, 3)
        \<and> getPageSizeFromGrid (GString s)
            = PageSize \<lparr>widthInches = 2, heightInches = 4, pageSize = ''2x4''\<rparr>)"
proof -
  have a: "derived_size None r = derived_size (Some 1) r"
          "derived_size (Some 0) r = derived_size (Some 1) r"
          "derived_size c None = derived_size c (Some 1)"
          "derived_size c (Some 0) = derived_size c (Some 1)" for c r
    by (simp_all add: derived_size_def or_one_def)
  have d: "derived_size (Some 1) (Some 1) = (2, 3)" "derived_size None None = (2, 3)"
    by (simp_all add: derived_size_one or_one_def)
  show ?thesis
    using a d snap_2x3
    by (auto simp: getPageSizeFromGrid_def size_from_dimensions_def or_one_def)
qed

theorem fallback_replaces_missing_by_one_witness:
  "catalog_index (Some ''custom'') = None
   \<and> getPageSizeFromGrid (GString ''custom'')
       = PageSize \<lparr>widthInches = 2, heightInches = 4, pageSize = ''2x4''\<rparr>
   \<and> derived_size None (Some 0) = derived_size (Some 1) (Some 0)
   \<and> derived_size (Some 1) (Some 0) = derived_size (Some 1) (Some 1)
   \<and> derived_size (Some 1) (Some 1) = (2, 3)
   \<and> getPageSizeFromGrid
        (GObject \<lparr>gid = Some ''custom'', cols = None, rows = Some 0, isStripGrid = False\<rparr>)
       = PageSize (snap_to_standard (derived_size None (Some 0)))"
  using fallback_replaces_missing_by_one
          [of "\<lparr>gid = Some ''custom'', cols = None, rows = Some 0, isStripGrid = False\<rparr>" "''custom''"]
        fallback_replaces_missing_by_one
          [of "\<lparr>gid = Some ''custom'', cols = Some 1, rows = Some 0, isStripGrid = False\<rparr>" "''custom''"]
  by (simp add: catalog_index_simps)

text \<open>
  Claim C10 as stated fails at the empty string: it is a string id absent from the
  catalog, and the guard \<open>!grid\<close> gives it the 4x6 default, not the 2x4 page.
\<close>

theorem empty_string_id_gets_default:
  "catalog_index (Some []) = None
   \<and> getPageSizeFromGrid (GString [])
       \<noteq> PageSize \<lparr>widthInches = 2, heightInches = 4, pageSize = ''2x4''\<rparr>"
  by (simp add: catalog_index_simps getPageSizeFromGrid_def page_4x6_def)

section \<open>Aspect-fit placement\<close>

lemma fit_wide:
  fixes a cw ch :: real
  assumes "0 < a" "0 < ch" "cw / ch < a"
  shows "cw / a < ch"
  using assms by (simp add: field_simps)

lemma fit_tall:
  fixes a cw ch :: real
  assumes "0 < ch" "\<not> cw / ch < a"
  shows "ch * a \<le> cw"
  using assms by (simp add: field_simps not_less)

text \<open>
  Claim C4 (aspect-fit placement). For an image of positive width and height (aspect
  \<open>a\<close>) and a cell of positive pixel width \<open>cw\<close> and height \<open>ch\<close>, both copies of the
  placement code, the one of the grid (cell at \<open>(cellX, cellY)\<close>) and the one of the strip
  (cell at \<open>(0, stripY)\<close>), give a rectangle inside the cell with
  \<open>drawWidth / drawHeight = a\<close>; when \<open>a > cw / ch\<close> it has the cell's width, starts at
  the cell's left edge and leaves the same space above and below; otherwise it has the
  cell's height, starts at the cell's top edge and leaves the same space left and right.
  The drawing call takes the whole image as its source: nothing is cropped.
\<close>

theorem aspect_fit_contained:
  fixes cw ch m :: int and i :: nat and gridRows :: real
  assumes img: "0 < width img" "0 < height img" and cell: "0 < cw" "0 < ch"
  defines "a \<equiv> real (width img) / real (height img)"
  defines "g \<equiv> grid_placement img i gridRows cw ch m"
  defines "cellX \<equiv> of_int m + of_int \<lfloor>real i / gridRows\<rfloor> * (of_int cw + of_int m)"
  defines "cellY \<equiv> of_int m + js_rem (real i) gridRows * (of_int ch + of_int m)"
  defines "s \<equiv> strip_placement img i cw ch"
  defines "stripY \<equiv> real i * of_int ch"
  shows "cellX \<le> drawX g \<and> drawX g + drawWidth g \<le> cellX + of_int cw
       \<and> cellY \<le> drawY g \<and> drawY g + drawHeight g \<le> cellY + of_int ch
       \<and> drawWidth g / drawHeight g = a
       \<and> (if a > of_int cw / of_int ch
          then drawWidth g = of_int cw \<and> drawX g = cellX
               \<and> drawY g - cellY = (cellY + of_int ch) - (drawY g + drawHeight g)
          else drawHeight g = of_int ch \<and> drawY g = cellY
               \<and> drawX g - cellX = (cellX + of_int cw) - (drawX g + drawWidth g))
       \<and> 0 \<le> drawX s \<and> drawX s + drawWidth s \<le> of_int cw
       \<and> stripY \<le> drawY s \<and> drawY s + drawHeight s \<le> stripY + of_int ch
       \<and> drawWidth s / drawHeight s = a
       \<and> (if a > of_int cw / of_int ch
          then drawWidth s = of_int cw \<and> drawX s = 0
               \<and> drawY s - stripY = (stripY + of_int ch) - (drawY s + drawHeight s)
          else drawHeight s = of_int ch \<and> drawY s = stripY
               \<and> drawX s - 0 = of_int cw - (drawX s + drawWidth s))
       \<and> draw_placed img g = DrawImage img 0 0 (real (width img)) (real (height img))
                                 (drawX g) (drawY g) (drawWidth g) (drawHeight g)
       \<and> draw_placed img s = DrawImage img 0 0 (real (width img)) (real (height img))
                                 (drawX s) (drawY s) (drawWidth s) (drawHeight s)"
proof -
  have a: "0 < a" using img by (simp add: a_def)
  have cwp: "0 < real_of_int cw" and chp: "0 < real_of_int ch" using cell by simp_all
  show ?thesis
  proof (cases "of_int cw / of_int ch < a")
    case True
    from fit_wide[OF a chp True] have lt: "of_int cw / a < real_of_int ch" .
    have r: "real_of_int cw / (real_of_int cw / a) = a" using a cwp by simp
    have gv: "drawX g = cellX" "drawY g = cellY + (of_int ch - of_int cw / a) / 2"
         "drawWidth g = of_int cw" "drawHeight g = of_int cw / a"
      using True by (simp_all add: g_def grid_placement_def Let_def a_def cellX_def cellY_def)
    have sv: "drawX s = 0" "drawY s = stripY + (of_int ch - of_int cw / a) / 2"
         "drawWidth s = of_int cw" "drawHeight s = of_int cw / a"
      using True by (simp_all add: s_def strip_placement_def Let_def a_def stripY_def)
    show ?thesis
      unfolding gv sv draw_placed_def using True lt r by (simp add: field_simps)
  next
    case False
    from fit_tall[OF chp False] have le: "real_of_int ch * a \<le> of_int cw" .
    have r: "real_of_int ch * a / real_of_int ch = a" using chp by simp
    have gv: "drawX g = cellX + (of_int cw - of_int ch * a) / 2" "drawY g = cellY"
         "drawWidth g = of_int ch * a" "drawHeight g = of_int ch"
      using False by (simp_all add: g_def grid_placement_def Let_def a_def cellX_def cellY_def)
    have sv: "drawX s = (of_int cw - of_int ch * a) / 2" "drawY s = stripY"
         "drawWidth s = of_int ch * a" "drawHeight s = of_int ch"
      using False by (simp_all add: s_def strip_placement_def Let_def a_def stripY_def)
    show ?thesis
      unfolding gv sv draw_placed_def using False le r by (simp add: field_simps)
  qed
qed

theorem aspect_fit_contained_witness:
  "0 < width (solid_image 1600 600 white) \<and> 0 < height (solid_image 1600 600 white)
   \<and> (0::int) < 600 \<and> (0::int) < 450
   \<and> grid_placement (solid_image 1600 600 white) 1 2 600 450 12
       = \<lparr>drawX = 12, drawY = 1173 / 2, drawWidth = 600, drawHeight = 225\<rparr>
   \<and> strip_placement (solid_image 1600 600 white) 1 600 450
       = \<lparr>drawX = 0, drawY = 1125 / 2, drawWidth = 600, drawHeight = 225\<rparr>
   \<and> drawWidth (grid_placement (solid_image 1600 600 white) 1 2 600 450 12)
       / drawHeight (grid_placement (solid_image 1600 600 white) 1 2 600 450 12) = 1600 / 600
   \<and> drawY (grid_placement (solid_image 1600 600 white) 1 2 600 450 12)
       + drawHeight (grid_placement (solid_image 1600 600 white) 1 2 600 450 12)
       \<le> (12 + js_rem 1 2 * (450 + 12)) + 450"
  using aspect_fit_contained[where img = "solid_image 1600 600 white" and cw = 600 and ch = 450
          and i = 1 and gridRows = 2 and m = 12]
  by (simp add: solid_image_def grid_placement_def strip_placement_def js_rem_def Let_def)

section \<open>Validation and image loading\<close>

lemma loadAll_ok: "\<forall>p\<in>set ps. decode p \<noteq> None \<Longrightarrow> loadAll decode ps = Inr (map (the \<circ> decode) ps)"
  by (induction ps) auto



lemma loadAll_Inl: "loadAll decode ps = Inl e \<Longrightarrow> e = ImageErrorEvent"
  by (induction ps) (auto split: option.splits sum.splits)

lemma loadAll_fail: "p \<in> set ps \<Longrightarrow> decode p = None \<Longrightarrow> loadAll decode ps = Inl ImageErrorEvent"
  by (induction ps) (auto split: option.splits sum.splits dest: loadAll_Inl)

lemma createGridComposite_strip:
  assumes "ps \<noteq> []" "\<not> falsy (cols gr)" "\<not> falsy (rows gr)" "strip_routed gr"
  shows "createGridComposite decode (Some ps) (Some gr) dpi mp mcw =
     (if length ps \<noteq> 4
      then \<lparr>started_loads = [], settled = Inl (Error (StripGridRequires4PhotosGot (length ps)))\<rparr>
      else createStripGridComposite decode (Some ps) dpi)"
  using assms by (auto simp: createGridComposite_def strip_routed_def)

lemma createGridComposite_general:
  assumes "ps \<noteq> []" "cols gr = Some c" "rows gr = Some r" "c \<noteq> 0" "r \<noteq> 0" "\<not> strip_routed gr"
  shows "createGridComposite decode (Some ps) (Some gr) dpi mp mcw =
     (if real (length ps) \<noteq> c * r
      then \<lparr>started_loads = [], settled = Inl (Error (ExpectedPhotosGot (c * r) (length ps)))\<rparr>
      else \<lparr>started_loads = ps,
            settled = (case loadAll decode ps of
                         Inl e \<Rightarrow> Inl e
                       | Inr images \<Rightarrow>
                          (case resolve_maxCellWidth gr c r mcw of
                             None \<Rightarrow> Inr (Canvas 0 0 [])
                           | Some m \<Rightarrow> Inr (gridCanvas images c r dpi mp m)))\<rparr>)"
  using assms by (auto simp: createGridComposite_def strip_routed_def falsy_def Let_def)

lemma createStripGridComposite_four:
  assumes "length ps = 4"
  shows "createStripGridComposite decode (Some ps) dpi =
     \<lparr>started_loads = ps,
      settled = (case loadAll decode ps of
                   Inl e \<Rightarrow> Inl e
                 | Inr images \<Rightarrow>
                    Inr (Canvas (of_int (math_round (4 * dpi))) (of_int (math_round (6 * dpi)))
                          [FillRect white 0 0 (of_int (math_round (4 * dpi))) (of_int (math_round (6 * dpi))),
                           DrawCanvas (stripCanvas images dpi) 0 0,
                           DrawCanvas (stripCanvas images dpi) (math_round (2 * dpi)) 0]))\<rparr>"
  using assms by (simp add: createStripGridComposite_def Let_def split: sum.splits)

lemma map_filter_draw:
  "List.map_filter drawn_image (map (\<lambda>(index, img). draw_placed img (f index img)) xs) = map snd xs"
  by (induction xs) (auto simp: draw_placed_def)

lemma drawn_images_gridCanvas: "drawn_images (gridCanvas images c r dpi mp m) = images"
  by (simp add: drawn_images_def gridCanvas_def Let_def map_filter_draw)

lemma drawn_images_stripCanvas: "drawn_images (stripCanvas images dpi) = images"
  by (simp add: drawn_images_def stripCanvas_def Let_def map_filter_draw)


lemma invalid_input_simps:
  "invalid_input (Error NoPhotosProvided)"
  "invalid_input (Error InvalidGridConfiguration)"
  "invalid_input (Error (StripGridRequires4PhotosGot n))"
  "invalid_input (Error (ExpectedPhotosGot t n))"
  "\<not> invalid_input ImageErrorEvent"
  by (simp_all add: invalid_input_def)

lemma loadAll_not_invalid: "loadAll decode ps = Inl e \<Longrightarrow> \<not> invalid_input e"
  by (auto dest: loadAll_Inl simp: invalid_input_simps)

lemma strip_settled_not_invalid:
  "length ps = 4 \<Longrightarrow> settled (createStripGridComposite decode (Some ps) dpi) = Inl e \<Longrightarrow> \<not> invalid_input e"
  by (auto simp: createStripGridComposite_four split: sum.splits dest: loadAll_not_invalid)

text \<open>
  Claim C7 (\<open>InvalidInput\<close>). \<open>createGridComposite\<close> rejects with an error of the
  kind \<open>InvalidInput\<close> exactly when the photo list is missing or empty, the grid is
  missing, \<open>cols\<close> or \<open>rows\<close> is missing or zero, the grid is routed to the strip and
  there are not 4 photos, or it is not and the number of photos is not \<open>cols * rows\<close>.
  Then no image load was started (and the outcome holds no canvas). The message of a
  count mismatch holds the expected and the actual count.
\<close>

theorem invalid_input_exactly:
  fixes photos :: "string list option" and grd :: "grid option"
    and decode :: "string \<Rightarrow> image option" and dpi mp :: real and mcw :: "real option"
  defines "out \<equiv> createGridComposite decode photos grd dpi mp mcw"
  shows "((\<exists>e. settled out = Inl e \<and> invalid_input e) \<longleftrightarrow>
           (photos = None \<or> photos = Some [] \<or> grd = None
            \<or> (\<exists>ps gr. photos = Some ps \<and> grd = Some gr \<and>
                  (falsy (cols gr) \<or> falsy (rows gr)
                   \<or> (strip_routed gr \<and> length ps \<noteq> 4)
                   \<or> (\<not> strip_routed gr \<and>
                       (\<exists>c r. cols gr = Some c \<and> rows gr = Some r \<and> real (length ps) \<noteq> c * r))))))
       \<and> ((\<exists>e. settled out = Inl e \<and> invalid_input e) \<longrightarrow> started_loads out = [])
       \<and> (\<forall>ps gr c r. photos = Some ps \<and> ps \<noteq> [] \<and> grd = Some gr
              \<and> cols gr = Some c \<and> c \<noteq> 0 \<and> rows gr = Some r \<and> r \<noteq> 0 \<longrightarrow>
            (strip_routed gr \<and> length ps \<noteq> 4 \<longrightarrow>
               settled out = Inl (Error (StripGridRequires4PhotosGot (length ps))))
            \<and> (\<not> strip_routed gr \<and> real (length ps) \<noteq> c * r \<longrightarrow>
               settled out = Inl (Error (ExpectedPhotosGot (c * r) (length ps)))))"
proof (cases photos)
  case None
  then show ?thesis by (simp add: out_def createGridComposite_def invalid_input_simps)
next
  case (Some ps)
  note ph = Some
  show ?thesis
  proof (cases "ps = []")
    case True
    with ph show ?thesis by (simp add: out_def createGridComposite_def invalid_input_simps)
  next
    case ne: False
    show ?thesis
    proof (cases grd)
      case None
      with ph ne show ?thesis by (simp add: out_def createGridComposite_def invalid_input_simps)
    next
      case (Some gr)
      note g = Some
      show ?thesis
      proof (cases "falsy (cols gr) \<or> falsy (rows gr)")
        case True
        then have "out = \<lparr>started_loads = [], settled = Inl (Error InvalidGridConfiguration)\<rparr>"
          using ph ne g by (auto simp: out_def createGridComposite_def)
        with True ph ne g show ?thesis by (auto simp: invalid_input_simps falsy_def)
      next
        case ok: False
        then obtain c r where cr: "cols gr = Some c" "rows gr = Some r" "c \<noteq> 0" "r \<noteq> 0"
          by (auto simp: falsy_def)
        show ?thesis
        proof (cases "strip_routed gr")
          case True
          have o: "out = (if length ps \<noteq> 4
                 then \<lparr>started_loads = [], settled = Inl (Error (StripGridRequires4PhotosGot (length ps)))\<rparr>
                 else createStripGridComposite decode (Some ps) dpi)"
            using createGridComposite_strip[of ps gr] ne ok True ph g by (simp add: out_def)
          show ?thesis
          proof (cases "length ps = 4")
            case True
            with o have "\<not> (\<exists>e. settled out = Inl e \<and> invalid_input e)"
              using strip_settled_not_invalid[OF True] by auto
            with True ph ne g ok \<open>strip_routed gr\<close> show ?thesis by auto
          next
            case False
            with o ph ne g ok cr \<open>strip_routed gr\<close> show ?thesis
              by (auto simp: invalid_input_simps)
          qed
        next
          case ns: False
          note o = createGridComposite_general[OF ne cr ns, of decode dpi mp mcw]
          show ?thesis
          proof (cases "real (length ps) = c * r")
            case True
            with o have "\<not> (\<exists>e. settled out = Inl e \<and> invalid_input e)"
              using ph g by (auto simp: out_def split: sum.splits option.splits dest: loadAll_not_invalid)
            with True ph ne g ok cr ns show ?thesis by auto
          next
            case False
            with o ph ne g ok cr ns show ?thesis
              by (auto simp: out_def invalid_input_simps)
          qed
        qed
      qed
    qed
  qed
qed


theorem invalid_input_exactly_witness:
  "settled (createGridComposite (decode_any (solid_image 800 600 white)) (Some [''a'']) (Some grid_2x2) 300 2 None)
     = Inl (Error (ExpectedPhotosGot 4 1))
   \<and> invalid_input (Error (ExpectedPhotosGot 4 1))
   \<and> started_loads (createGridComposite (decode_any (solid_image 800 600 white)) (Some [''a'']) (Some grid_2x2) 300 2 None) = []
   \<and> \<not> strip_routed grid_2x2 \<and> cols grid_2x2 = Some 2 \<and> rows grid_2x2 = Some 2
   \<and> real (length [''a'']) \<noteq> 2 * 2"
  using invalid_input_exactly[of "decode_any (solid_image 800 600 white)" "Some [''a'']" "Some grid_2x2" 300 2 None]
  by (simp add: grid_2x2_def strip_routed_def invalid_input_simps)

text \<open>
  Claim C8 (\<open>DecodeFailure\<close>). For arguments that pass the validation: when some photo
  cannot be decoded the promise is rejected with the load's error event, on the general
  path and on the strip path, so no canvas is returned; when every photo decodes, a
  canvas is returned whose \<open>drawImage\<close> calls draw the decoded photos in index order
  (on the strip path: the strip canvas's calls; with a \<open>NaN\<close> cell size the canvas is
  the empty one).
\<close>

theorem decode_failure_aborts:
  fixes decode :: "string \<Rightarrow> image option" and dpi mp :: real and mcw :: "real option"
  assumes ne: "ps \<noteq> []" and c: "cols gr = Some c" "c \<noteq> 0" and r: "rows gr = Some r" "r \<noteq> 0"
    and count: "if strip_routed gr then length ps = 4 else real (length ps) = c * r"
  defines "out \<equiv> createGridComposite decode (Some ps) (Some gr) dpi mp mcw"
  shows "((\<exists>p\<in>set ps. decode p = None) \<longrightarrow>
            settled out = Inl ImageErrorEvent \<and> decode_failure ImageErrorEvent)
       \<and> ((\<forall>p\<in>set ps. decode p \<noteq> None) \<longrightarrow>
            (\<exists>cv. settled out = Inr cv \<and>
               (if strip_routed gr
                then (\<exists>sc x. canvas_ops cv =
                         [FillRect white 0 0 (canvas_width cv) (canvas_height cv),
                          DrawCanvas sc 0 0, DrawCanvas sc x 0]
                       \<and> drawn_images sc = map (the \<circ> decode) ps)
                else if resolve_maxCellWidth gr c r mcw = None then cv = Canvas 0 0 []
                else drawn_images cv = map (the \<circ> decode) ps)))
       \<and> (strip_routed gr \<longrightarrow> createStripGridComposite decode (Some ps) dpi = out)"
proof (cases "strip_routed gr")
  case True
  then have four: "length ps = 4" using count by simp
  have o: "out = createStripGridComposite decode (Some ps) dpi"
    using createGridComposite_strip[of ps gr] ne c r True four by (simp add: out_def falsy_def)
  show ?thesis
    unfolding o createStripGridComposite_four[OF four]
    using True by (auto simp: loadAll_fail loadAll_ok drawn_images_stripCanvas)
next
  case False
  then have cnt: "real (length ps) = c * r" using count by simp
  note o = createGridComposite_general[OF ne c(1) r(1) c(2) r(2) False, of decode dpi mp mcw]
  show ?thesis
    unfolding out_def o
    using False cnt
    by (auto simp: loadAll_fail loadAll_ok drawn_images_gridCanvas split: option.splits)
qed

theorem decode_failure_aborts_witness:
  "four_photos \<noteq> [] \<and> cols grid_2x2 = Some 2 \<and> rows grid_2x2 = Some 2 \<and> \<not> strip_routed grid_2x2
   \<and> real (length four_photos) = 2 * 2
   \<and> decode_any (solid_image 800 600 white) [] = None
   \<and> settled (createGridComposite (decode_any (solid_image 800 600 white))
                (Some [''p0'', ''p1'', [], ''p3'']) (Some grid_2x2) 300 2 None) = Inl ImageErrorEvent
   \<and> (\<exists>cv. settled (createGridComposite (decode_any (solid_image 800 600 white))
                (Some four_photos) (Some grid_2x2) 300 2 None) = Inr cv
          \<and> drawn_images cv = [solid_image 800 600 white, solid_image 800 600 white,
                solid_image 800 600 white, solid_image 800 600 white])"
  using decode_failure_aborts[of "[''p0'', ''p1'', [], ''p3'']" grid_2x2 2 2 "decode_any (solid_image 800 600 white)" 300 2 None]
        decode_failure_aborts[of four_photos grid_2x2 2 2 "decode_any (solid_image 800 600 white)" 300 2 None]
  by (simp add: grid_2x2_def strip_routed_def four_photos_def decode_any_def resolve_maxCellWidth_def
        auto_maxCellWidth_def getPageSizeFromGrid_def catalog_index_simps Let_def)

section \<open>Two grids worked in doubles\<close>

text \<open>
  The roundings met when the 2 by 2 grid of the catalog is composed at 300 dpi, and a
  3 by 4 grid without a catalog entry (an 8 by 10 inch page) at 100 dpi, both with a
  margin of 2 percent. For the second, \<open>0.1 * 3\<close> is \<open>0.30000000000000004\<close>, the cell is
  \<open>2.4249999999999998\<close> inches and \<open>242.49999999999997\<close> pixels, rounded to 242.
\<close>

lemma double_tenth_again: "to_double (3602879701896397 / 36028797018963968) = 3602879701896397 / 36028797018963968"
  by (rule to_double_eval[where e = "- 4"])
     (simp_all add: round_half_even_def power_int_minus Let_def)

lemma double_a_width: "to_double (140512308373959475 / 36028797018963968) = 8782019273372467 / 2251799813685248"
  by (rule to_double_eval[where e = 1])
     (simp_all add: round_half_even_def power_int_minus Let_def)

lemma double_a_height: "to_double (212569902411887411 / 36028797018963968) = 3321404725185741 / 562949953421312"
  by (rule to_double_eval[where e = 2])
     (simp_all add: round_half_even_def power_int_minus Let_def)

lemma double_a_width_cell: "to_double (8782019273372467 / 4503599627370496) = 8782019273372467 / 4503599627370496"
  by (rule to_double_eval[where e = 0])
     (simp_all add: round_half_even_def power_int_minus Let_def)

lemma double_a_height_cell: "to_double (3321404725185741 / 1125899906842624) = 3321404725185741 / 1125899906842624"
  by (rule to_double_eval[where e = 1])
     (simp_all add: round_half_even_def power_int_minus Let_def)

lemma double_a_px: "to_double (658651445502935025 / 1125899906842624) = 585"
  by (rule to_double_eval[where e = 9])
     (simp_all add: round_half_even_def power_int_minus Let_def)

lemma double_2_percent: "to_double (1 / 50) = 5764607523034235 / 288230376151711744"
  by (rule to_double_eval[where e = "- 6"])
     (simp_all add: round_half_even_def power_int_minus Let_def)

lemma double_a_margin: "to_double (3372295400975027475 / 288230376151711744) = 6586514455029351 / 562949953421312"
  by (rule to_double_eval[where e = 3])
     (simp_all add: round_half_even_def power_int_minus Let_def)

lemma double_b_gap_cols: "to_double (3602879701896397 / 18014398509481984) = 3602879701896397 / 18014398509481984"
  by (rule to_double_eval[where e = "- 3"])
     (simp_all add: round_half_even_def power_int_minus Let_def)

lemma double_b_gap_rows: "to_double (10808639105689191 / 36028797018963968) = 1351079888211149 / 4503599627370496"
  by (rule to_double_eval[where e = "- 2"])
     (simp_all add: round_half_even_def power_int_minus Let_def)

lemma double_b_width: "to_double (140512308373959475 / 18014398509481984) = 8782019273372467 / 1125899906842624"
  by (rule to_double_eval[where e = 2])
     (simp_all add: round_half_even_def power_int_minus Let_def)

lemma double_b_height: "to_double (43684916385493811 / 4503599627370496) = 2730307274093363 / 281474976710656"
  by (rule to_double_eval[where e = 3])
     (simp_all add: round_half_even_def power_int_minus Let_def)

lemma double_b_width_cell: "to_double (8782019273372467 / 3377699720527872) = 5854679515581645 / 2251799813685248"
  by (rule to_double_eval[where e = 1])
     (simp_all add: round_half_even_def power_int_minus Let_def)

lemma double_b_height_cell: "to_double (2730307274093363 / 1125899906842624) = 2730307274093363 / 1125899906842624"
  by (rule to_double_eval[where e = 1])
     (simp_all add: round_half_even_def power_int_minus Let_def)

lemma double_b_px: "to_double (68257681852334075 / 281474976710656) = 8532210231541759 / 35184372088832"
  by (rule to_double_eval[where e = 7])
     (simp_all add: round_half_even_def power_int_minus Let_def)

lemma double_b_margin: "to_double (697517510287142435 / 144115188075855872) = 1362338887279575 / 281474976710656"
  by (rule to_double_eval[where e = 2])
     (simp_all add: round_half_even_def power_int_minus Let_def)

lemma resolve_grid_2x2:
  "resolve_maxCellWidth grid_2x2 2 2 None = Some (8782019273372467 / 4503599627370496)"
  by (simp add: resolve_maxCellWidth_def auto_maxCellWidth_def getPageSizeFromGrid_def grid_2x2_def
      catalog_index_simps page_4x6_def Let_def double_tenth to_double_1 double_tenth_again
      double_a_width double_a_height double_a_width_cell double_a_height_cell)

lemma page_grid_3x4:
  "getPageSizeFromGrid (GObject grid_3x4)
     = PageSize \<lparr>widthInches = 8, heightInches = 10, pageSize = ''8x10''\<rparr>"
  by (simp add: getPageSizeFromGrid_def grid_3x4_def catalog_index_simps size_from_dimensions_def
      derived_size_def or_one_def snap_to_standard_def find_closest_def standardSizes_def
      closest_step_def Let_def size_diff_def)

lemma resolve_grid_3x4:
  "resolve_maxCellWidth grid_3x4 3 4 None = Some (2730307274093363 / 1125899906842624)"
  by (simp add: resolve_maxCellWidth_def auto_maxCellWidth_def page_grid_3x4 Let_def
      double_tenth to_double_numeral double_b_gap_cols double_b_gap_rows
      double_b_width double_b_height double_b_width_cell double_b_height_cell)

lemma loadAll_twelve_photos:
  "loadAll (decode_any img) twelve_photos = Inr (replicate 12 img)"
  by (simp add: twelve_photos_def decode_any_def numeral_eq_Suc)

section \<open>Columns, rows and shifts\<close>

lemma floor_index_div: "\<lfloor>real i / real nr\<rfloor> = int (i div nr)"
  by (simp add: floor_divide_of_nat_eq)

lemma js_rem_nat: "0 < nr \<Longrightarrow> js_rem (real i) (real nr) = real (i mod nr)"
proof -
  assume "0 < nr"
  have "real i = real nr * real (i div nr) + real (i mod nr)"
    by (metis of_nat_add of_nat_mult mult_div_mod_eq)
  then have "real i - real nr * real (i div nr) = real (i mod nr)"
    by simp
  then show ?thesis
    by (simp add: js_rem_def Let_def floor_index_div)
qed


lemma stripCanvas_ops:
  "length (canvas_ops (stripCanvas images dpi)) = Suc (length images)
      \<and> (\<forall>i<length images. canvas_ops (stripCanvas images dpi) ! Suc i
           = draw_placed (images ! i)
               (strip_placement (images ! i) i (math_round (2 * dpi)) (math_round (6 / 4 * dpi))))"
  by (simp add: stripCanvas_def Let_def nth_enumerate_eq)




lemma loadAll_four_photos:
  "loadAll (decode_any img) four_photos = Inr [img, img, img, img]"
  by (simp add: four_photos_def decode_any_def)



section \<open>The uniform cell\<close>

text \<open>
  With a \<open>maxCellWidth\<close> that is not negative, neither maximum of the second
  \<open>forEach\<close> moves the cell size off \<open>maxCellWidth\<close>: a wide image asks for the height
  \<open>maxCellWidth / aspect\<close>, a tall one for the width \<open>maxCellWidth * aspect\<close>, and
  neither is more than \<open>maxCellWidth\<close>.
\<close>

lemma cell_size_step_baseline:
  assumes "0 \<le> mcw"
  shows "cell_size_step mcw (mcw, mcw) d = (mcw, mcw)"
proof (cases "aspect d > 1")
  case True
  then have "mcw * 1 \<le> mcw * aspect d"
    using assms by (intro mult_left_mono) simp_all
  with True have "mcw / aspect d \<le> mcw"
    by (simp add: field_simps)
  with True show ?thesis by (simp add: cell_size_step_def max_def)
next
  case False
  then have "mcw * aspect d \<le> mcw * 1"
    using assms by (intro mult_left_mono) simp_all
  with False show ?thesis by (simp add: cell_size_step_def max_def)
qed

lemma foldl_cell_size_baseline:
  "0 \<le> mcw \<Longrightarrow> foldl (cell_size_step mcw) (mcw, mcw) ds = (mcw, mcw)"
  by (induction ds) (simp_all add: cell_size_step_baseline)

lemma cell_size_inches_baseline:
  "0 \<le> mcw \<Longrightarrow> cell_size_inches images r mcw = (mcw, mcw)"
  by (simp add: cell_size_inches_def Let_def foldl_cell_size_baseline)

lemma cell_key_inj:
  assumes "0 < nr" "real (i div nr) = real (j div nr)" "real (i mod nr) = real (j mod nr)"
  shows "i = j"
proof -
  from assms have "i div nr = j div nr" "i mod nr = j mod nr" by simp_all
  then show ?thesis by (metis div_mult_mod_eq)
qed

lemma cellDimensions_list:
  fixes nr :: nat
  assumes "0 < nr"
  shows "foldl (cellDimensions_step (real nr) mcw) [] (List.enumerate 0 images) =
         map (\<lambda>(i, img).
               ((real (i div nr), real (i mod nr)),
                \<lparr>aspect = real (width img) / real (height img),
                 minWidth = (if real (width img) / real (height img) > 1 then mcw
                             else mcw / (real (width img) / real (height img))),
                 minHeight = (if real (width img) / real (height img) > 1
                              then mcw / (real (width img) / real (height img)) else mcw)\<rparr>))
             (List.enumerate 0 images)"
proof (induction images rule: rev_induct)
  case Nil
  then show ?case by simp
next
  case (snoc x xs)
  let ?F = "\<lambda>(i, img).
               ((real (i div nr), real (i mod nr)),
                \<lparr>aspect = real (width img) / real (height img),
                 minWidth = (if real (width img) / real (height img) > 1 then mcw
                             else mcw / (real (width img) / real (height img))),
                 minHeight = (if real (width img) / real (height img) > 1
                              then mcw / (real (width img) / real (height img)) else mcw)\<rparr>)"
  let ?m = "map ?F (List.enumerate 0 xs)"
  let ?n = "length xs"
  have en: "List.enumerate 0 (xs @ [x]) = List.enumerate 0 xs @ [(?n, x)]"
    by (simp add: enumerate_append_eq)
  have keys: "fst ` set ?m = (\<lambda>i. (real (i div nr), real (i mod nr))) ` {0..<?n}"
    by (force simp: enumerate_eq_zip in_set_zip image_iff)
  have "(real (?n div nr), real (?n mod nr)) \<notin> fst ` set ?m"
  proof
    assume "(real (?n div nr), real (?n mod nr)) \<in> fst ` set ?m"
    with keys obtain i where "i < ?n" "real (?n div nr) = real (i div nr)" "real (?n mod nr) = real (i mod nr)"
      by auto
    with cell_key_inj[OF assms, of ?n i] show False by simp
  qed
  then have none: "map_of ?m (real (?n div nr), real (?n mod nr)) = None"
    by (simp add: map_of_eq_None_iff)
  have "foldl (cellDimensions_step (real nr) mcw) [] (List.enumerate 0 (xs @ [x]))
        = cellDimensions_step (real nr) mcw ?m (?n, x)"
    by (simp add: en snoc.IH)
  also have "\<dots> = ?m @ [?F (?n, x)]"
    using none assms
    by (simp add: cellDimensions_step_def Let_def js_rem_nat floor_index_div)
  also have "\<dots> = map ?F (List.enumerate 0 (xs @ [x]))"
    by (simp add: en)
  finally show ?case .
qed


lemma foldl_cell_size_max:
  "foldl (cell_size_step mcw) (h0, w0) ds =
     (fold max [mcw / aspect d. d \<leftarrow> ds, aspect d > 1] h0,
      fold max [mcw * aspect d. d \<leftarrow> ds, \<not> aspect d > 1] w0)"
  by (induction ds arbitrary: h0 w0) (simp_all add: cell_size_step_def max.commute)

lemma cell_size_inches_max:
  fixes nr :: nat
  assumes "0 < nr"
  shows "cell_size_inches images (real nr) mcw =
     (Max (set (mcw # [mcw / (real (width img) / real (height img)).
                        img \<leftarrow> images, real (width img) / real (height img) > 1])),
      Max (set (mcw # [mcw * (real (width img) / real (height img)).
                        img \<leftarrow> images, \<not> real (width img) / real (height img) > 1])))"
proof -
  let ?a = "\<lambda>img. real (width img) / real (height img)"
  let ?D = "\<lambda>img. \<lparr>aspect = ?a img,
                 minWidth = (if ?a img > 1 then mcw else mcw / ?a img),
                 minHeight = (if ?a img > 1 then mcw / ?a img else mcw)\<rparr>"
  have "map snd (foldl (cellDimensions_step (real nr) mcw) [] (List.enumerate 0 images))
          = map (\<lambda>(i, img). ?D img) (List.enumerate 0 images)"
    by (simp add: cellDimensions_list[OF assms] case_prod_unfold comp_def)
  also have "\<dots> = map (?D \<circ> snd) (List.enumerate 0 images)"
    by (simp add: case_prod_unfold comp_def)
  also have "\<dots> = map ?D (map snd (List.enumerate 0 images))"
    by (simp only: map_map)
  also have "\<dots> = map ?D images"
    by (simp only: map_snd_enumerate)
  finally have ds: "map snd (foldl (cellDimensions_step (real nr) mcw) [] (List.enumerate 0 images))
          = map ?D images" .
  have f1: "[mcw / aspect d. d \<leftarrow> map ?D images, aspect d > 1]
            = [mcw / ?a img. img \<leftarrow> images, ?a img > 1]"
    by (induction images) simp_all
  have f2: "[mcw * aspect d. d \<leftarrow> map ?D images, \<not> aspect d > 1]
            = [mcw * ?a img. img \<leftarrow> images, \<not> ?a img > 1]"
    by (induction images) simp_all
  show ?thesis
    unfolding cell_size_inches_def Let_def ds foldl_cell_size_max f1 f2 Max.set_eq_fold ..
qed

lemma grid_placement_in_cell:
  fixes cw ch m :: int and i :: nat and gridRows :: real
  assumes img: "0 < width img" "0 < height img" and cell: "0 < cw" "0 < ch"
  defines "g \<equiv> grid_placement img i gridRows cw ch m"
  defines "cellX \<equiv> of_int m + of_int \<lfloor>real i / gridRows\<rfloor> * (of_int cw + of_int m)"
  defines "cellY \<equiv> of_int m + js_rem (real i) gridRows * (of_int ch + of_int m)"
  shows "cellX \<le> drawX g \<and> drawX g + drawWidth g \<le> cellX + of_int cw
       \<and> cellY \<le> drawY g \<and> drawY g + drawHeight g \<le> cellY + of_int ch
       \<and> drawWidth g / drawHeight g = real (width img) / real (height img)"
proof -
  let ?a = "real (width img) / real (height img)"
  have a: "0 < ?a" using img by simp
  have cwp: "0 < real_of_int cw" and chp: "0 < real_of_int ch" using cell by simp_all
  show ?thesis
  proof (cases "of_int cw / of_int ch < ?a")
    case True
    from fit_wide[OF a chp True] have lt: "of_int cw / ?a < real_of_int ch" .
    have r: "real_of_int cw / (real_of_int cw / ?a) = ?a" using a cwp by simp
    have gv: "drawX g = cellX" "drawY g = cellY + (of_int ch - of_int cw / ?a) / 2"
         "drawWidth g = of_int cw" "drawHeight g = of_int cw / ?a"
      using True by (simp_all add: g_def grid_placement_def Let_def cellX_def cellY_def)
    show ?thesis
      unfolding gv using lt r by (simp add: field_simps)
  next
    case False
    from fit_tall[OF chp False] have le: "real_of_int ch * ?a \<le> of_int cw" .
    have r: "real_of_int ch * ?a / real_of_int ch = ?a" using chp by simp
    have gv: "drawX g = cellX + (of_int cw - of_int ch * ?a) / 2" "drawY g = cellY"
         "drawWidth g = of_int ch * ?a" "drawHeight g = of_int ch"
      using False by (simp_all add: g_def grid_placement_def Let_def cellX_def cellY_def)
    show ?thesis
      unfolding gv using le r by (simp add: field_simps)
  qed
qed


lemma cell_size_px_baseline:
  "0 \<le> mw \<Longrightarrow>
   cell_size_px images r dpi mw
     = (math_round (to_double (mw * dpi)), math_round (to_double (mw * dpi)))"
  by (simp add: cell_size_px_def cell_size_inches_baseline Let_def)

lemma gridCanvas_size:
  "canvas_width (gridCanvas images c r dpi mp mw) =
     to_double (of_int (margin_px (cell_size_px images r dpi mw) mp)
       + to_double (to_double (of_int (fst (cell_size_px images r dpi mw))
                                + of_int (margin_px (cell_size_px images r dpi mw) mp)) * c))"
  "canvas_height (gridCanvas images c r dpi mp mw) =
     to_double (of_int (margin_px (cell_size_px images r dpi mw) mp)
       + to_double (to_double (of_int (snd (cell_size_px images r dpi mw))
                                + of_int (margin_px (cell_size_px images r dpi mw) mp)) * r))"
  by (simp_all add: gridCanvas_def Let_def)

lemma gridCanvas_nth:
  "i < length images \<Longrightarrow>
   canvas_ops (gridCanvas images c r dpi mp mw) ! Suc i
     = draw_placed (images ! i)
         (grid_placement (images ! i) i r
            (fst (cell_size_px images r dpi mw)) (snd (cell_size_px images r dpi mw))
            (margin_px (cell_size_px images r dpi mw) mp))"
  by (simp add: gridCanvas_def Let_def nth_enumerate_eq)

lemma px_grid_2x2:
  "cell_size_px images 2 300 (8782019273372467 / 4503599627370496) = (585, 585)"
  "margin_px (585, 585) 2 = 12"
  by (simp_all add: cell_size_px_baseline margin_px_def math_round_def
      double_a_px double_2_percent double_a_margin)

lemma px_grid_3x4:
  "cell_size_px images 4 100 (2730307274093363 / 1125899906842624) = (242, 242)"
  "margin_px (242, 242) 2 = 5"
  by (simp_all add: cell_size_px_baseline margin_px_def math_round_def
      double_b_px double_2_percent double_b_margin)

section \<open>The order of the photos\<close>



section \<open>The size of the cells and of the canvas\<close>

text \<open>
  Claim C2, as amended (the uniform cell size). For a valid grid with \<open>rows\<close> a positive
  whole number, whose photos decode, and a \<open>maxCellWidth\<close> \<open>mw\<close> that is a number: the
  cell size of the canvas is, in height, the greatest of \<open>mw\<close> and the heights
  \<open>mw / aspect\<close> of the wide photos, and in width the greatest of \<open>mw\<close> and the
  widths \<open>mw * aspect\<close> of the others. When \<open>mw\<close> is not negative this is \<open>mw\<close> by
  \<open>mw\<close>: no cell dimension exceeds \<open>maxCellWidth\<close>. When moreover the cell has a
  positive pixel size \<open>cpx = Math.round (mw * dpi)\<close>, the product taken in doubles, and
  the photos a positive width and height, every photo is drawn whole, at its own
  aspect ratio, inside its cell.
\<close>

theorem cell_size_uniform_maximum:
  fixes decode :: "string \<Rightarrow> image option" and nr :: nat and c dpi mp mw :: real
  assumes valid: "ps \<noteq> []" "cols gr = Some c" "c \<noteq> 0" "rows gr = Some (real nr)" "0 < nr"
      "\<not> strip_routed gr" "real (length ps) = c * real nr"
    and loaded: "loadAll decode ps = Inr images"
    and width: "resolve_maxCellWidth gr c (real nr) mcw = Some mw"
  defines "cpx \<equiv> math_round (to_double (mw * dpi))"
  defines "m \<equiv> math_round (to_double (of_int (math_round (to_double (mw * dpi))) * to_double (mp / 100)))"
  shows "settled (createGridComposite decode (Some ps) (Some gr) dpi mp mcw)
           = Inr (gridCanvas images c (real nr) dpi mp mw)
       \<and> cell_size_inches images (real nr) mw =
           (Max (set (mw # [mw / (real (width img) / real (height img)).
                             img \<leftarrow> images, real (width img) / real (height img) > 1])),
            Max (set (mw # [mw * (real (width img) / real (height img)).
                             img \<leftarrow> images, \<not> real (width img) / real (height img) > 1])))
       \<and> (0 \<le> mw \<longrightarrow> cell_size_inches images (real nr) mw = (mw, mw))
       \<and> (0 \<le> mw \<and> 0 < cpx \<and> (\<forall>img\<in>set images. 0 < width img \<and> 0 < height img) \<longrightarrow>
            (\<forall>i<length images.
               \<exists>p::placement. canvas_ops (gridCanvas images c (real nr) dpi mp mw) ! Suc i
                     = DrawImage (images ! i) 0 0 (real (width (images ! i))) (real (height (images ! i)))
                         (drawX p) (drawY p) (drawWidth p) (drawHeight p)
                 \<and> of_int m + real (i div nr) * (of_int cpx + of_int m) \<le> drawX p
                 \<and> drawX p + drawWidth p
                     \<le> of_int m + real (i div nr) * (of_int cpx + of_int m) + of_int cpx
                 \<and> of_int m + real (i mod nr) * (of_int cpx + of_int m) \<le> drawY p
                 \<and> drawY p + drawHeight p
                     \<le> of_int m + real (i mod nr) * (of_int cpx + of_int m) + of_int cpx
                 \<and> drawWidth p / drawHeight p
                     = real (width (images ! i)) / real (height (images ! i))))"
proof -
  have nz: "real nr \<noteq> 0" using valid(5) by simp
  have g: "settled (createGridComposite decode (Some ps) (Some gr) dpi mp mcw)
             = Inr (gridCanvas images c (real nr) dpi mp mw)"
    using createGridComposite_general[OF valid(1,2,4,3) nz valid(6), of decode dpi mp mcw]
      valid(7) loaded width by simp
  note mx = cell_size_inches_max[OF valid(5), of images mw]
  have fit: "\<exists>p::placement. canvas_ops (gridCanvas images c (real nr) dpi mp mw) ! Suc i
                     = DrawImage (images ! i) 0 0 (real (width (images ! i))) (real (height (images ! i)))
                         (drawX p) (drawY p) (drawWidth p) (drawHeight p)
                 \<and> of_int m + real (i div nr) * (of_int cpx + of_int m) \<le> drawX p
                 \<and> drawX p + drawWidth p
                     \<le> of_int m + real (i div nr) * (of_int cpx + of_int m) + of_int cpx
                 \<and> of_int m + real (i mod nr) * (of_int cpx + of_int m) \<le> drawY p
                 \<and> drawY p + drawHeight p
                     \<le> of_int m + real (i mod nr) * (of_int cpx + of_int m) + of_int cpx
                 \<and> drawWidth p / drawHeight p
                     = real (width (images ! i)) / real (height (images ! i))"
    if b: "0 \<le> mw" and px: "0 < cpx" and pos: "\<forall>img\<in>set images. 0 < width img \<and> 0 < height img"
      and i: "i < length images" for i
  proof -
    let ?p = "grid_placement (images ! i) i (real nr) cpx cpx m"
    have im: "0 < width (images ! i)" "0 < height (images ! i)"
      using pos i by simp_all
    have op: "canvas_ops (gridCanvas images c (real nr) dpi mp mw) ! Suc i
                = draw_placed (images ! i) ?p"
      using gridCanvas_nth[OF i, of c "real nr" dpi mp mw]
      by (simp add: cell_size_px_baseline[OF b] margin_px_def cpx_def m_def)
    from grid_placement_in_cell[OF im px px, where i = i and gridRows = "real nr" and m = m]
    have bd: "of_int m + real (i div nr) * (of_int cpx + of_int m) \<le> drawX ?p
        \<and> drawX ?p + drawWidth ?p \<le> of_int m + real (i div nr) * (of_int cpx + of_int m) + of_int cpx
        \<and> of_int m + real (i mod nr) * (of_int cpx + of_int m) \<le> drawY ?p
        \<and> drawY ?p + drawHeight ?p \<le> of_int m + real (i mod nr) * (of_int cpx + of_int m) + of_int cpx
        \<and> drawWidth ?p / drawHeight ?p = real (width (images ! i)) / real (height (images ! i))"
      by (simp add: floor_index_div js_rem_nat[OF valid(5)])
    have op': "canvas_ops (gridCanvas images c (real nr) dpi mp mw) ! Suc i
                = DrawImage (images ! i) 0 0 (real (width (images ! i))) (real (height (images ! i)))
                         (drawX ?p) (drawY ?p) (drawWidth ?p) (drawHeight ?p)"
      using op by (simp add: draw_placed_def)
    show ?thesis
      by (rule exI[of _ ?p]) (use op' bd in blast)
  qed
  from g mx fit cell_size_inches_baseline[of mw images "real nr"] show ?thesis
    by blast
qed

theorem cell_size_uniform_maximum_witness:
  "four_photos \<noteq> [] \<and> cols grid_2x2 = Some 2 \<and> rows grid_2x2 = Some 2 \<and> \<not> strip_routed grid_2x2
   \<and> real (length four_photos) = 2 * 2
   \<and> resolve_maxCellWidth grid_2x2 2 2 None = Some (8782019273372467 / 4503599627370496)
   \<and> (0::real) \<le> 8782019273372467 / 4503599627370496 \<and> 0 < math_round (to_double (8782019273372467 / 4503599627370496 * 300))
   \<and> 0 < width photo_800x600 \<and> 0 < height photo_800x600
   \<and> cell_size_inches [photo_800x600, photo_800x600, photo_800x600, photo_800x600] 2 (8782019273372467 / 4503599627370496)
       = (8782019273372467 / 4503599627370496, 8782019273372467 / 4503599627370496)
   \<and> (\<exists>p::placement.
         canvas_ops (gridCanvas [photo_800x600, photo_800x600, photo_800x600, photo_800x600]
                       2 2 300 2 (8782019273372467 / 4503599627370496)) ! Suc 3
           = DrawImage photo_800x600 0 0 800 600 (drawX p) (drawY p) (drawWidth p) (drawHeight p)
       \<and> 609 \<le> drawX p \<and> drawX p + drawWidth p \<le> 609 + 585
       \<and> 609 \<le> drawY p \<and> drawY p + drawHeight p \<le> 609 + 585
       \<and> drawWidth p / drawHeight p = 800 / 600)"
proof -
  let ?I = "photo_800x600"
  let ?imgs = "[?I, ?I, ?I, ?I]"
  have v: "four_photos \<noteq> []" "cols grid_2x2 = Some 2" "(2::real) \<noteq> 0"
      "rows grid_2x2 = Some (real 2)" "0 < (2::nat)" "\<not> strip_routed grid_2x2"
      "real (length four_photos) = 2 * real 2"
    by (simp_all add: four_photos_def grid_2x2_def strip_routed_def)
  have w: "resolve_maxCellWidth grid_2x2 2 (real 2) None = Some (8782019273372467 / 4503599627370496)"
    using resolve_grid_2x2 by simp
  have b: "(0::real) \<le> 8782019273372467 / 4503599627370496" by simp
  have r1: "math_round (to_double (8782019273372467 / 4503599627370496 * 300)) = 585" by (simp add: math_round_def double_a_px)
  have pos: "\<forall>img\<in>set ?imgs. 0 < width img \<and> 0 < height img"
    by (simp add: photo_800x600_def solid_image_def)
  note t = cell_size_uniform_maximum[OF v loadAll_four_photos w, of ?I 300 2]
  note t3 = t[THEN conjunct2, THEN conjunct2, THEN conjunct1, rule_format]
  note t4 = t[THEN conjunct2, THEN conjunct2, THEN conjunct2, rule_format]
  have cs: "cell_size_inches ?imgs 2 (8782019273372467 / 4503599627370496) = (8782019273372467 / 4503599627370496, 8782019273372467 / 4503599627370496)"
    using t3[OF b] by simp
  have px: "0 < math_round (to_double (8782019273372467 / 4503599627370496 * 300))" unfolding r1 by simp
  have i3: "3 < length ?imgs" by simp
  have fit: "\<exists>p::placement.
         canvas_ops (gridCanvas ?imgs 2 2 300 2 (8782019273372467 / 4503599627370496)) ! Suc 3
           = DrawImage ?I 0 0 800 600 (drawX p) (drawY p) (drawWidth p) (drawHeight p)
       \<and> 609 \<le> drawX p \<and> drawX p + drawWidth p \<le> 609 + 585
       \<and> 609 \<le> drawY p \<and> drawY p + drawHeight p \<le> 609 + 585
       \<and> drawWidth p / drawHeight p = 800 / 600"
    using t4[OF conjI[OF b conjI[OF px pos]] i3]
    by (simp add: photo_800x600_def solid_image_def math_round_def double_a_px double_2_percent double_a_margin)
  from v resolve_grid_2x2 b r1 cs fit show ?thesis
    by (simp add: photo_800x600_def solid_image_def)
qed

text \<open>
  Claim C2 as stated says that for some inputs a cell dimension exceeds
  \<open>maxCellWidth\<close>. For no photos, rows and \<open>maxCellWidth\<close> that is not negative does
  one: so for a photo ten times as wide as high and one ten times as high as wide, with
  \<open>maxCellWidth\<close> 2 inches, the cell is 2 by 2 inches.
\<close>

theorem no_cell_enlargement:
  "cell_size_inches [photo_1000x100, photo_100x1000] 1 2 = (2, 2)
   \<and> \<not> (\<exists>images r mcw. 0 \<le> mcw
           \<and> (mcw < fst (cell_size_inches images r mcw) \<or> mcw < snd (cell_size_inches images r mcw)))"
  by (simp add: cell_size_inches_baseline)

text \<open>
  Claim C1, as amended (the size of the canvas). For a valid grid that is not routed to
  the strip, whose photos decode, and a \<open>maxCellWidth\<close> \<open>mw\<close> that is a number and not
  negative, the canvas is built from square cells and margins, every operation rounded
  to a double as the code computes it: the cell is
  \<open>cpx = Math.round (mw * dpi)\<close> pixels wide and high, the margin is
  \<open>m = Math.round (cpx * (marginPercent / 100))\<close>, and the canvas is
  \<open>m + (cpx + m) * cols\<close> wide and \<open>m + (cpx + m) * rows\<close> high; for whole \<open>cols\<close>
  and \<open>rows\<close> with canvas sizes below \<open>2 ^ 53\<close> these sums and products are exact.
  \<open>mw\<close> is the caller's \<open>maxCellWidth\<close>, or without one the lesser of
  \<open>(W - 0.1 * (cols - 1)) / cols\<close> and \<open>(H - 0.1 * (rows - 1)) / rows\<close> in double
  arithmetic, for the resolved page \<open>W\<close> by \<open>H\<close>. The page size enters in no other way.
\<close>

theorem canvas_size_from_cells:
  fixes decode :: "string \<Rightarrow> image option" and c r dpi mp mw :: real
  assumes valid: "ps \<noteq> []" "cols gr = Some c" "c \<noteq> 0" "rows gr = Some r" "r \<noteq> 0"
      "\<not> strip_routed gr" "real (length ps) = c * r"
    and loaded: "loadAll decode ps = Inr images"
    and width: "resolve_maxCellWidth gr c r mcw = Some mw"
    and base: "0 \<le> mw"
  defines "cpx \<equiv> math_round (to_double (mw * dpi))"
  defines "m \<equiv> math_round (to_double (of_int (math_round (to_double (mw * dpi))) * to_double (mp / 100)))"
  shows "(\<exists>cv. settled (createGridComposite decode (Some ps) (Some gr) dpi mp mcw) = Inr cv
            \<and> canvas_width cv
                = to_double (of_int m + to_double (to_double (of_int cpx + of_int m) * c))
            \<and> canvas_height cv
                = to_double (of_int m + to_double (to_double (of_int cpx + of_int m) * r))
            \<and> (\<forall>k. c = of_int k \<and> \<bar>cpx + m\<bar> < 2 ^ 53 \<and> \<bar>(cpx + m) * k\<bar> < 2 ^ 53
                      \<and> \<bar>m + (cpx + m) * k\<bar> < 2 ^ 53
                    \<longrightarrow> canvas_width cv = of_int (m + (cpx + m) * k))
            \<and> (\<forall>k. r = of_int k \<and> \<bar>cpx + m\<bar> < 2 ^ 53 \<and> \<bar>(cpx + m) * k\<bar> < 2 ^ 53
                      \<and> \<bar>m + (cpx + m) * k\<bar> < 2 ^ 53
                    \<longrightarrow> canvas_height cv = of_int (m + (cpx + m) * k)))
       \<and> (case mcw of
             Some x \<Rightarrow> mw = x
           | None \<Rightarrow>
              (\<exists>pc. getPageSizeFromGrid (GObject gr) = PageSize pc
                 \<and> mw = min (to_double (to_double (widthInches pc
                                 - to_double (to_double (1 / 10) * to_double (c - 1))) / c))
                            (to_double (to_double (heightInches pc
                                 - to_double (to_double (1 / 10) * to_double (r - 1))) / r))))"
proof -
  let ?cv = "gridCanvas images c r dpi mp mw"
  have g: "settled (createGridComposite decode (Some ps) (Some gr) dpi mp mcw) = Inr ?cv"
    using createGridComposite_general[OF valid(1,2,4,3,5,6), of decode dpi mp mcw]
      valid(7) loaded width by simp
  have dims: "canvas_width ?cv
                = to_double (of_int m + to_double (to_double (of_int cpx + of_int m) * c))"
             "canvas_height ?cv
                = to_double (of_int m + to_double (to_double (of_int cpx + of_int m) * r))"
    by (simp_all add: gridCanvas_size cell_size_px_baseline[OF base] margin_px_def cpx_def m_def)
  have whole: "to_double (of_int m + to_double (to_double (of_int cpx + of_int m) * of_int k))
                 = of_int (m + (cpx + m) * k)"
    if "\<bar>cpx + m\<bar> < 2 ^ 53" "\<bar>(cpx + m) * k\<bar> < 2 ^ 53" "\<bar>m + (cpx + m) * k\<bar> < 2 ^ 53" for k
  proof -
    have "to_double (of_int cpx + of_int m) = of_int (cpx + m)"
      using to_double_of_int[OF that(1)] by simp
    moreover have "to_double (of_int (cpx + m) * of_int k) = of_int ((cpx + m) * k)"
      using to_double_of_int[OF that(2)] by simp
    moreover have "to_double (of_int m + of_int ((cpx + m) * k)) = of_int (m + (cpx + m) * k)"
      using to_double_of_int[OF that(3)] by simp
    ultimately show ?thesis by simp
  qed
  have ww: "\<forall>k. c = of_int k \<and> \<bar>cpx + m\<bar> < 2 ^ 53 \<and> \<bar>(cpx + m) * k\<bar> < 2 ^ 53
                      \<and> \<bar>m + (cpx + m) * k\<bar> < 2 ^ 53
                    \<longrightarrow> canvas_width ?cv = of_int (m + (cpx + m) * k)"
    using whole unfolding dims by blast
  have wh: "\<forall>k. r = of_int k \<and> \<bar>cpx + m\<bar> < 2 ^ 53 \<and> \<bar>(cpx + m) * k\<bar> < 2 ^ 53
                      \<and> \<bar>m + (cpx + m) * k\<bar> < 2 ^ 53
                    \<longrightarrow> canvas_height ?cv = of_int (m + (cpx + m) * k)"
    using whole unfolding dims by blast
  have src: "case mcw of
             Some x \<Rightarrow> mw = x
           | None \<Rightarrow>
              (\<exists>pc. getPageSizeFromGrid (GObject gr) = PageSize pc
                 \<and> mw = min (to_double (to_double (widthInches pc
                                 - to_double (to_double (1 / 10) * to_double (c - 1))) / c))
                            (to_double (to_double (heightInches pc
                                 - to_double (to_double (1 / 10) * to_double (r - 1))) / r)))"
    using width
    by (auto simp: resolve_maxCellWidth_def auto_maxCellWidth_def Let_def
             split: option.splits page_result.splits)
  from g dims ww wh src show ?thesis by blast
qed

theorem canvas_size_from_cells_witness:
  "twelve_photos \<noteq> [] \<and> cols grid_3x4 = Some 3 \<and> rows grid_3x4 = Some 4 \<and> \<not> strip_routed grid_3x4
   \<and> real (length twelve_photos) = 3 * 4
   \<and> loadAll (decode_any photo_800x600) twelve_photos = Inr (replicate 12 photo_800x600)
   \<and> resolve_maxCellWidth grid_3x4 3 4 None = Some (2730307274093363 / 1125899906842624)
   \<and> math_round (to_double (2730307274093363 / 1125899906842624 * 100)) = 242
   \<and> math_round (to_double (of_int 242 * to_double (2 / 100))) = 5
   \<and> (\<exists>cv. settled (createGridComposite (decode_any photo_800x600)
                (Some twelve_photos) (Some grid_3x4) 100 2 None) = Inr cv
          \<and> canvas_width cv = 746 \<and> canvas_height cv = 993)
   \<and> getPageSizeFromGrid (GObject grid_3x4)
        = PageSize \<lparr>widthInches = 8, heightInches = 10, pageSize = ''8x10''\<rparr>
   \<and> (2730307274093363 / 1125899906842624 :: real)
        = min (to_double (to_double (8 - to_double (to_double (1 / 10) * to_double (3 - 1))) / 3))
              (to_double (to_double (10 - to_double (to_double (1 / 10) * to_double (4 - 1))) / 4))"
proof -
  let ?I = "photo_800x600"
  let ?mw = "2730307274093363 / 1125899906842624 :: real"
  have v: "twelve_photos \<noteq> []" "cols grid_3x4 = Some 3" "(3::real) \<noteq> 0"
      "rows grid_3x4 = Some 4" "(4::real) \<noteq> 0" "\<not> strip_routed grid_3x4"
      "real (length twelve_photos) = 3 * 4"
    by (simp_all add: twelve_photos_def grid_3x4_def strip_routed_def)
  have b: "0 \<le> ?mw" by simp
  have r1: "math_round (to_double (?mw * 100)) = 242"
    by (simp add: math_round_def double_b_px)
  have r2: "math_round (to_double (of_int 242 * to_double (2 / 100))) = 5"
    by (simp add: math_round_def double_2_percent double_b_margin)
  have mn: "?mw = min (to_double (to_double (8 - to_double (to_double (1 / 10) * to_double (3 - 1))) / 3))
              (to_double (to_double (10 - to_double (to_double (1 / 10) * to_double (4 - 1))) / 4))"
    by (simp add: double_tenth to_double_numeral double_b_gap_cols double_b_gap_rows
      double_b_width double_b_height double_b_width_cell double_b_height_cell)
  note t = canvas_size_from_cells[OF v loadAll_twelve_photos resolve_grid_3x4 b, of ?I 100 2,
      unfolded r1 r2, THEN conjunct1]
  from t obtain cv where
    a: "settled (createGridComposite (decode_any ?I) (Some twelve_photos) (Some grid_3x4) 100 2 None) = Inr cv"
    and w: "\<forall>k. (3::real) = of_int k \<and> \<bar>242 + 5\<bar> < (2::int) ^ 53 \<and> \<bar>(242 + 5) * k\<bar> < 2 ^ 53
                      \<and> \<bar>5 + (242 + 5) * k\<bar> < 2 ^ 53
                    \<longrightarrow> canvas_width cv = of_int (5 + (242 + 5) * k)"
    and h: "\<forall>k. (4::real) = of_int k \<and> \<bar>242 + 5\<bar> < (2::int) ^ 53 \<and> \<bar>(242 + 5) * k\<bar> < 2 ^ 53
                      \<and> \<bar>5 + (242 + 5) * k\<bar> < 2 ^ 53
                    \<longrightarrow> canvas_height cv = of_int (5 + (242 + 5) * k)"
    by blast
  have cw: "canvas_width cv = 746" using w[rule_format, of 3] by simp
  have ch: "canvas_height cv = 993" using h[rule_format, of 4] by simp
  have E: "\<exists>cv. settled (createGridComposite (decode_any photo_800x600)
                (Some twelve_photos) (Some grid_3x4) 100 2 None) = Inr cv
          \<and> canvas_width cv = 746 \<and> canvas_height cv = 993"
    using a cw ch by blast
  show ?thesis
    using v(1,2,4,6,7) loadAll_twelve_photos[of ?I] resolve_grid_3x4 r1 r2 E page_grid_3x4 mn
    by (intro conjI)
qed

text \<open>
  Claim C1 as stated fails on the 2 by 2 grid of the catalog with four 800 by 600
  photos at 300 dpi and a 2 percent margin: no cell is enlarged, the resolved page is 4
  by 6 inches, that is 1200 by 1800 pixels, and the canvas is 1206 by 1206 pixels.
\<close>

theorem canvas_is_not_page_size:
  "settled (createGridComposite (decode_any photo_800x600)
              (Some four_photos) (Some grid_2x2) 300 2 None)
     = Inr (gridCanvas [photo_800x600, photo_800x600, photo_800x600, photo_800x600] 2 2 300 2
              (8782019273372467 / 4503599627370496))
   \<and> canvas_width
        (gridCanvas [photo_800x600, photo_800x600, photo_800x600, photo_800x600] 2 2 300 2
           (8782019273372467 / 4503599627370496))
       = 1206
   \<and> canvas_height
        (gridCanvas [photo_800x600, photo_800x600, photo_800x600, photo_800x600] 2 2 300 2
           (8782019273372467 / 4503599627370496))
       = 1206
   \<and> cell_size_inches [photo_800x600, photo_800x600, photo_800x600, photo_800x600] 2
        (8782019273372467 / 4503599627370496)
       = (8782019273372467 / 4503599627370496, 8782019273372467 / 4503599627370496)
   \<and> getPageSizeFromGrid (GObject grid_2x2) = PageSize page_4x6
   \<and> math_round (to_double (widthInches page_4x6 * 300)) = 1200
   \<and> math_round (to_double (heightInches page_4x6 * 300)) = 1800"
proof -
  let ?I = "photo_800x600"
  let ?mw = "8782019273372467 / 4503599627370496 :: real"
  have v: "four_photos \<noteq> []" "cols grid_2x2 = Some 2" "rows grid_2x2 = Some 2" "(2::real) \<noteq> 0"
      "(2::real) \<noteq> 0" "\<not> strip_routed grid_2x2"
    by (simp_all add: four_photos_def grid_2x2_def strip_routed_def)
  have len: "real (length four_photos) = 2 * 2" by (simp add: four_photos_def)
  have g: "settled (createGridComposite (decode_any ?I) (Some four_photos) (Some grid_2x2) 300 2 None)
             = Inr (gridCanvas [?I, ?I, ?I, ?I] 2 2 300 2 ?mw)"
    using createGridComposite_general[OF v, of "decode_any ?I" 300 2 None] len
    by (simp add: loadAll_four_photos resolve_grid_2x2)
  have i1: "to_double (585 + 12) = 597" "to_double (597 * 2) = 1194" "to_double (12 + 1194) = 1206"
    using to_double_of_int[of 597] to_double_of_int[of 1194] to_double_of_int[of 1206] by simp_all
  have d: "canvas_width (gridCanvas [?I, ?I, ?I, ?I] 2 2 300 2 ?mw) = 1206"
          "canvas_height (gridCanvas [?I, ?I, ?I, ?I] 2 2 300 2 ?mw) = 1206"
    using i1 by (simp_all add: gridCanvas_size px_grid_2x2)
  have p: "getPageSizeFromGrid (GObject grid_2x2) = PageSize page_4x6"
    by (simp add: getPageSizeFromGrid_def grid_2x2_def catalog_index_simps)
  have pr: "math_round (to_double (widthInches page_4x6 * 300)) = 1200"
       "math_round (to_double (heightInches page_4x6 * 300)) = 1800"
    using to_double_of_int[of 1200] to_double_of_int[of 1800]
    by (simp_all add: page_4x6_def math_round_def)
  from g d p pr show ?thesis by (simp add: cell_size_inches_baseline)
qed

section \<open>Pixels: the extracted strip\<close>

lemma is_int_simps: "is_int 0" "is_int (of_int k)"
  by (simp_all add: is_int_def)

lemma source_over_transparent: "source_over B s transparent_black = s"
  by (simp add: source_over_def transparent_black_def)

lemma source_over_white: "source_over B white d = white"
  by (simp add: source_over_def white_def)

text \<open>
  Claim C9 (strip extraction). When the composite cannot be decoded the promise is
  rejected with \<open>'Failed to load composite image'\<close>. When it decodes, the returned
  canvas is \<open>round (2 * dpi)\<close> by \<open>round (6 * dpi)\<close> pixels, its one drawing call has the
  same rectangle as source and as destination (no scaling), and every pixel of the
  canvas that the composite has is the composite's pixel at the same place.
\<close>

theorem extract_left_strip:
  fixes decode :: "string \<Rightarrow> image option" and dpi :: real
  shows "(decode url = None \<longrightarrow>
            settled (extractStripFromComposite decode url dpi) = Inl (Error FailedToLoadCompositeImage)
            \<and> decode_failure (Error FailedToLoadCompositeImage))
       \<and> (\<forall>img. decode url = Some img \<longrightarrow>
            (\<exists>cv. settled (extractStripFromComposite decode url dpi) = Inr cv
               \<and> canvas_width cv = of_int (math_round (2 * dpi))
               \<and> canvas_height cv = of_int (math_round (6 * dpi))
               \<and> canvas_ops cv =
                   [DrawImage img 0 0 (of_int (math_round (2 * dpi))) (of_int (math_round (6 * dpi)))
                                  0 0 (of_int (math_round (2 * dpi))) (of_int (math_round (6 * dpi)))]
               \<and> (\<forall>x y. 0 \<le> x \<and> x < math_round (2 * dpi) \<and> x < int (width img)
                        \<and> 0 \<le> y \<and> y < math_round (6 * dpi) \<and> y < int (height img) \<longrightarrow>
                      bitmap_of R B cv x y = pixels img x y)))"
  by (auto simp: extractStripFromComposite_def Let_def is_int_simps source_over_transparent)


theorem extract_left_strip_witness:
  "decode_any composite_1200x1800 [] = None
   \<and> settled (extractStripFromComposite (decode_any composite_1200x1800) [] 300)
       = Inl (Error FailedToLoadCompositeImage)
   \<and> decode_any composite_1200x1800 ''data'' = Some composite_1200x1800
   \<and> (\<exists>cv. settled (extractStripFromComposite (decode_any composite_1200x1800) ''data'' 300) = Inr cv
         \<and> canvas_width cv = 600 \<and> canvas_height cv = 1800
         \<and> bitmap_of no_resampling blend_source cv 599 1799 = RGBA 87 7 0 255)"
proof -
  let ?d = "decode_any composite_1200x1800"
  have n: "?d [] = None" and sm: "?d ''data'' = Some composite_1200x1800"
    by (simp_all add: decode_any_def)
  note t = extract_left_strip[of ?d _ 300 no_resampling blend_source]
  from t[of "[]"] n
  have a: "settled (extractStripFromComposite ?d [] 300) = Inl (Error FailedToLoadCompositeImage)"
    by blast
  from t[of "''data''"] sm obtain cv where
    cv: "settled (extractStripFromComposite ?d ''data'' 300) = Inr cv"
      "canvas_width cv = of_int (math_round (2 * 300))"
      "canvas_height cv = of_int (math_round (6 * 300))"
    and px: "\<forall>x y. 0 \<le> x \<and> x < math_round (2 * 300) \<and> x < int (width composite_1200x1800)
                        \<and> 0 \<le> y \<and> y < math_round (6 * 300) \<and> y < int (height composite_1200x1800) \<longrightarrow>
                      bitmap_of no_resampling blend_source cv x y = pixels composite_1200x1800 x y"
    by blast
  have "bitmap_of no_resampling blend_source cv 599 1799 = pixels composite_1200x1800 599 1799"
    by (rule px[rule_format]) (simp add: math_round_def composite_1200x1800_def)
  then have "bitmap_of no_resampling blend_source cv 599 1799 = RGBA 87 7 0 255"
    by (simp add: composite_1200x1800_def)
  with n a sm cv show ?thesis by (auto simp: math_round_def)
qed

lemma round_int_dpi:
  "math_round (2 * real n) = 2 * int n" "math_round (4 * real n) = 4 * int n"
  "math_round (6 * real n) = 6 * int n"
proof -
  have "math_round (real_of_int k) = k" for k
    by (simp add: math_round_def)
  from this[of "2 * int n"] this[of "4 * int n"] this[of "6 * int n"]
  show "math_round (2 * real n) = 2 * int n" "math_round (4 * real n) = 4 * int n"
    "math_round (6 * real n) = 6 * int n"
    by simp_all
qed

lemma stripCanvas_size:
  "canvas_width (stripCanvas images dpi) = of_int (math_round (2 * dpi))"
  "canvas_height (stripCanvas images dpi) = of_int (math_round (6 * dpi))"
  by (simp_all add: stripCanvas_def Let_def)

lemma strip_pair_pixels:
  fixes sw cw ch :: int
  assumes "canvas_width sc = of_int sw" "canvas_height sc = of_int ch" "2 * sw \<le> cw"
    and "0 \<le> x" "x < sw" "0 \<le> y" "y < ch"
  defines "cv \<equiv> Canvas (of_int cw) (of_int ch)
                   [FillRect white 0 0 (of_int cw) (of_int ch), DrawCanvas sc 0 0, DrawCanvas sc sw 0]"
  shows "bitmap_of R B cv x y = source_over B (bitmap_of R B sc x y) white"
    and "bitmap_of R B cv (x + sw) y = source_over B (bitmap_of R B sc x y) white"
  using assms(1-7) by (simp_all add: cv_def source_over_white)


lemma int_dpi_fits: "2 * math_round (2 * real n) \<le> math_round (4 * real n)"
  by (simp add: round_int_dpi)


section \<open>The strip compositor at a whole number of dots per inch\<close>

text \<open>
  When twice the strip's width is at most the canvas's width, as at every whole number
  of dots per inch (\<open>int_dpi_fits\<close>), the canvas is \<open>round (4 * dpi)\<close> by
  \<open>round (6 * dpi)\<close> pixels, and each pixel of its left half, columns \<open>0\<close> to
  \<open>round (2 * dpi) - 1\<close>, equals the pixel \<open>round (2 * dpi)\<close> columns to its right:
  both are the strip canvas's pixel, drawn on white.
\<close>

lemma strip_halves_equal:
  fixes decode :: "string \<Rightarrow> image option" and dpi :: real
  assumes four: "length ps = 4" and loaded: "loadAll decode ps = Inr images"
    and fits: "2 * math_round (2 * dpi) \<le> math_round (4 * dpi)"
  shows "\<exists>cv. settled (createStripGridComposite decode (Some ps) dpi) = Inr cv
       \<and> canvas_width cv = of_int (math_round (4 * dpi))
       \<and> canvas_height cv = of_int (math_round (6 * dpi))
       \<and> (\<forall>x y. 0 \<le> x \<and> x < math_round (2 * dpi) \<and> 0 \<le> y \<and> y < math_round (6 * dpi) \<longrightarrow>
              bitmap_of R B cv (x + math_round (2 * dpi)) y = bitmap_of R B cv x y
            \<and> bitmap_of R B cv x y
                = source_over B (bitmap_of R B (stripCanvas images dpi) x y) white)"
proof -
  let ?sc = "stripCanvas images dpi"
  let ?cv = "Canvas (of_int (math_round (4 * dpi))) (of_int (math_round (6 * dpi)))
               [FillRect white 0 0 (of_int (math_round (4 * dpi))) (of_int (math_round (6 * dpi))),
                DrawCanvas ?sc 0 0, DrawCanvas ?sc (math_round (2 * dpi)) 0]"
  have s: "settled (createStripGridComposite decode (Some ps) dpi) = Inr ?cv"
    using createStripGridComposite_four[OF four, of decode dpi] loaded by simp
  have px: "bitmap_of R B ?cv (x + math_round (2 * dpi)) y = bitmap_of R B ?cv x y
            \<and> bitmap_of R B ?cv x y = source_over B (bitmap_of R B ?sc x y) white"
    if "0 \<le> x \<and> x < math_round (2 * dpi) \<and> 0 \<le> y \<and> y < math_round (6 * dpi)" for x y
    using strip_pair_pixels[OF stripCanvas_size fits, where x = x and y = y and R = R and B = B] that by simp
  show ?thesis
    apply (rule exI[of _ ?cv])
    using s px by simp
qed

text \<open>
  The four cells of the strip are each \<open>round (1.5 * dpi)\<close> pixels high and the strip
  is \<open>round (6 * dpi)\<close> pixels high. At an even whole number of dots per inch the four
  cells fill the strip exactly; at an odd one they are 2 pixels higher than the strip.
\<close>

lemma strip_cells_height:
  "4 * math_round (6 / 4 * real (2 * n)) = math_round (6 * real (2 * n))"
  "4 * math_round (6 / 4 * real (2 * n + 1)) = math_round (6 * real (2 * n + 1)) + 2"
proof -
  have a: "math_round (real_of_int k) = k" for k
    by (simp add: math_round_def)
  have "6 / 4 * real (2 * n) = real_of_int (3 * int n)" by simp
  then have c: "math_round (6 / 4 * real (2 * n)) = 3 * int n" using a by metis
  have "6 * real (2 * n) = real_of_int (12 * int n)" by simp
  then have d: "math_round (6 * real (2 * n)) = 12 * int n" using a by metis
  from c d show "4 * math_round (6 / 4 * real (2 * n)) = math_round (6 * real (2 * n))" by simp
  have "6 / 4 * real (2 * n + 1) + 1 / 2 = real_of_int (3 * int n + 2)" by (simp add: field_simps)
  then have e: "math_round (6 / 4 * real (2 * n + 1)) = 3 * int n + 2"
    by (simp only: math_round_def floor_of_int)
  have "6 * real (2 * n + 1) = real_of_int (12 * int n + 6)" by simp
  then have f: "math_round (6 * real (2 * n + 1)) = 12 * int n + 6" using a by metis
  from e f show "4 * math_round (6 / 4 * real (2 * n + 1)) = math_round (6 * real (2 * n + 1)) + 2"
    by simp
qed

text \<open>
  Claim C3 (the strip compositor), which the code misses at an odd number of dots per
  inch. The claim has each half of the canvas be the 2 by 6 inch strip that holds the 4
  photos stacked vertically, and so does the source: the strip is a 1 by 4 grid,
  ``4 rows in 6 inches = 1.5 inches per cell''. The strip's height and the cell's
  height are rounded separately. At 301 dots per inch, with four 800 by 600 photos:
  the canvas is 1204 by 1806 pixels and the strip 602 by 1806, as claimed; a cell is
  452 pixels high, so the four cells take 1808 pixels; the fourth photo is drawn from
  \<open>y = 1356.25\<close> over a height of 451.5 pixels, down to 1807.75, below the strip's
  last row of pixels, 1805: the strip has no pixel in row 1806, and the photo's lower
  edge is not on it.
\<close>

theorem strip_cells_exceed_strip:
  "settled (createStripGridComposite (decode_any photo_800x600) (Some four_photos) 301)
     = Inr (Canvas 1204 1806
             [FillRect white 0 0 1204 1806,
              DrawCanvas (stripCanvas [photo_800x600, photo_800x600, photo_800x600, photo_800x600] 301) 0 0,
              DrawCanvas (stripCanvas [photo_800x600, photo_800x600, photo_800x600, photo_800x600] 301) 602 0])
   \<and> canvas_width (stripCanvas [photo_800x600, photo_800x600, photo_800x600, photo_800x600] 301) = 602
   \<and> canvas_height (stripCanvas [photo_800x600, photo_800x600, photo_800x600, photo_800x600] 301) = 1806
   \<and> math_round (6 / 4 * 301) = 452
   \<and> canvas_ops (stripCanvas [photo_800x600, photo_800x600, photo_800x600, photo_800x600] 301) ! 4
       = DrawImage photo_800x600 0 0 800 600 0 (5425 / 4) 602 (903 / 2)
   \<and> (5425 / 4 + 903 / 2 :: real) = 7231 / 4
   \<and> canvas_height (stripCanvas [photo_800x600, photo_800x600, photo_800x600, photo_800x600] 301)
       < 7231 / 4
   \<and> bitmap_of no_resampling blend_source (stripCanvas [photo_800x600, photo_800x600, photo_800x600, photo_800x600] 301) 0 1806
       = transparent_black"
proof -
  let ?imgs = "[photo_800x600, photo_800x600, photo_800x600, photo_800x600]"
  let ?sc = "stripCanvas ?imgs 301"
  have f: "length four_photos = 4" by (simp add: four_photos_def)
  have r: "math_round (2 * 301) = 602" "math_round (4 * 301) = 1204"
    "math_round (6 * 301) = 1806" "math_round (6 / 4 * 301) = 452"
    by (simp_all add: math_round_def)
  have s: "settled (createStripGridComposite (decode_any photo_800x600) (Some four_photos) 301)
             = Inr (Canvas 1204 1806 [FillRect white 0 0 1204 1806, DrawCanvas ?sc 0 0, DrawCanvas ?sc 602 0])"
    unfolding createStripGridComposite_four[OF f] loadAll_four_photos r by simp
  have sz: "canvas_width ?sc = 602" "canvas_height ?sc = 1806"
    using stripCanvas_size[of ?imgs 301] unfolding r by simp_all
  have op3: "canvas_ops ?sc ! Suc 3
               = draw_placed photo_800x600 (strip_placement photo_800x600 3 602 452)"
    using stripCanvas_ops[of ?imgs 301, unfolded r, THEN conjunct2, rule_format, of 3] by simp
  have op: "canvas_ops ?sc ! 4 = DrawImage photo_800x600 0 0 800 600 0 (5425 / 4) 602 (903 / 2)"
    using op3
    by (simp add: draw_placed_def strip_placement_def photo_800x600_def solid_image_def Let_def)
  have out: "bitmap_of no_resampling blend_source ?sc 0 1806 = transparent_black"
    by (simp add: stripCanvas_def Let_def math_round_def)
  from s sz r(4) op out show ?thesis by simp
qed

end
